theory Spec2Isabelle
  imports Complex_Main
begin

section \<open>Text and the two date patterns\<close>

text \<open>
  The repository is a VS Code extension with one source file, \<^verbatim>\<open>src/extension.ts\<close>, present
  in two revisions: \<^verbatim>\<open>src/src/extension.ts\<close> (word-boundary pattern, calendar-day distance,
  one style per distance) and the copy embedded in \<^verbatim>\<open>src/unnamed/part_000\<close> (whitespace
  lookaround, date-fns validation, business-day distance, Fibonacci buckets). Functions of
  the first revision keep their names; functions of the second that share a name carry the
  suffix \<open>_fib\<close>.

  A JavaScript string is a sequence of UTF-16 code units, modelled as a list of integers.
\<close>

type_synonym jsstring = "int list"

definition js :: "string \<Rightarrow> jsstring" where
  "js s = map of_char s"

text \<open>\<^verbatim>\<open>\d\<close> without the unicode flag: the ASCII digits.\<close>

definition isDigit :: "int \<Rightarrow> bool" where
  "isDigit c = (48 \<le> c \<and> c \<le> 57)"

text \<open>\<^verbatim>\<open>\w\<close>, which decides \<^verbatim>\<open>\b\<close>: ASCII letters, digits and the underscore.\<close>

definition isWordChar :: "int \<Rightarrow> bool" where
  "isWordChar c = (isDigit c \<or> (65 \<le> c \<and> c \<le> 90) \<or> (97 \<le> c \<and> c \<le> 122) \<or> c = 95)"

text \<open>\<^verbatim>\<open>\s\<close>: the ECMAScript WhiteSpace and LineTerminator code points.\<close>

definition isWhiteSpace :: "int \<Rightarrow> bool" where
  "isWhiteSpace c =
     (c \<in> set [9, 10, 11, 12, 13, 32, 160, 5760, 8232, 8233, 8239, 8287, 12288, 65279]
      \<or> (8192 \<le> c \<and> c \<le> 8202))"

text \<open>The common core \<^verbatim>\<open>\d{4}-\d{2}-\d{2}\<close> of both patterns, tried at offset \<open>i\<close>.\<close>

definition datePattern :: "jsstring \<Rightarrow> nat \<Rightarrow> bool" where
  "datePattern text i =
     (i + 10 \<le> length text
      \<and> list_all (\<lambda>k. isDigit (text ! (i + k))) [0, 1, 2, 3, 5, 6, 8, 9]
      \<and> text ! (i + 4) = 45 \<and> text ! (i + 7) = 45)"

text \<open>
  \<^verbatim>\<open>\b\<close> at offset \<open>p\<close>: exactly one of the characters before and after \<open>p\<close> is a word
  character; outside the text there is none.
\<close>

definition wordBoundary :: "jsstring \<Rightarrow> nat \<Rightarrow> bool" where
  "wordBoundary text p =
     ((0 < p \<and> p \<le> length text \<and> isWordChar (text ! (p - 1)))
      \<noteq> (p < length text \<and> isWordChar (text ! p)))"

text \<open>\<^verbatim>\<open>src/src/extension.ts\<close>: \<^verbatim>\<open>const dateRegex = /\b\d{4}-\d{2}-\d{2}\b/g;\<close>\<close>

definition dateRegex :: "jsstring \<Rightarrow> nat \<Rightarrow> bool" where
  "dateRegex text i = (wordBoundary text i \<and> datePattern text i \<and> wordBoundary text (i + 10))"

text \<open>
  \<^verbatim>\<open>part_000\<close>: \<^verbatim>\<open>const dateRegex = /(?<=\s|^)\d{4}-\d{2}-\d{2}(?=\s|$)/g;\<close>
  There is no \<^verbatim>\<open>m\<close> flag, so \<^verbatim>\<open>^\<close> and \<^verbatim>\<open>$\<close> are the ends of the whole text.
\<close>

definition dateRegex_fib :: "jsstring \<Rightarrow> nat \<Rightarrow> bool" where
  "dateRegex_fib text i =
     ((i = 0 \<or> (i \<le> length text \<and> isWhiteSpace (text ! (i - 1))))
      \<and> datePattern text i
      \<and> (i + 10 = length text \<or> (i + 10 < length text \<and> isWhiteSpace (text ! (i + 10)))))"

text \<open>
  \<^verbatim>\<open>dateRegex.exec(text)\<close> with the \<^verbatim>\<open>g\<close> flag searches from \<^verbatim>\<open>lastIndex\<close> for the leftmost
  offset where the pattern matches, and returns \<^verbatim>\<open>null\<close> when there is none. The result is
  the \<^verbatim>\<open>match.index\<close>; \<^verbatim>\<open>match[0]\<close> always has length 10, and \<^verbatim>\<open>lastIndex\<close> becomes
  \<^verbatim>\<open>index + 10\<close>.
\<close>

function exec :: "(jsstring \<Rightarrow> nat \<Rightarrow> bool) \<Rightarrow> jsstring \<Rightarrow> nat \<Rightarrow> nat option" where
  "exec re text lastIndex =
     (if length text < lastIndex then None
      else if re text lastIndex then Some lastIndex
      else exec re text (lastIndex + 1))"
  by pat_completeness auto
termination
  by (relation "measure (\<lambda>(re, text, lastIndex). length text + 1 - lastIndex)") auto

declare exec.simps [simp del]

lemma exec_range: "exec re doc i = Some j \<Longrightarrow> i \<le> j \<and> j \<le> length doc"
proof (induction re doc i rule: exec.induct)
  case (1 re doc lastIndex)
  then show ?case
    by (subst (asm) (2) exec.simps) (auto split: if_splits)
qed

text \<open>\<^verbatim>\<open>match[0]\<close>, the matched substring.\<close>

definition matched :: "jsstring \<Rightarrow> nat \<Rightarrow> jsstring" where
  "matched text index = take 10 (drop index text)"

section \<open>Dates\<close>

text \<open>
  A \<^verbatim>\<open>Date\<close> is its time value: milliseconds since the epoch, or \<^verbatim>\<open>NaN\<close> for an invalid
  date. The same type serves for the numbers computed from it.
\<close>

datatype number = Num int | NaN

definition msPerDay :: int where
  "msPerDay = 1000 * 60 * 60 * 24"

definition isLeapYear :: "int \<Rightarrow> bool" where
  "isLeapYear y = (y mod 4 = 0 \<and> (y mod 100 \<noteq> 0 \<or> y mod 400 = 0))"

definition daysInMonth :: "int \<Rightarrow> int \<Rightarrow> int" where
  "daysInMonth y m =
     (if m = 2 then (if isLeapYear y then 29 else 28)
      else if m \<in> {4, 6, 9, 11} then 30 else 31)"

text \<open>ECMAScript \<^verbatim>\<open>DayFromYear\<close>: the day number of 1 January of year \<open>y\<close> (1970 is 0).\<close>

definition DayFromYear :: "int \<Rightarrow> int" where
  "DayFromYear y =
     365 * (y - 1970) + (y - 1969) div 4 - (y - 1901) div 100 + (y - 1601) div 400"

text \<open>
  ECMAScript \<^verbatim>\<open>MakeDay\<close> for a month in 1..12: the day number of the first of the month plus
  \<open>d - 1\<close>, whatever \<open>d\<close> is (a day past the end of the month rolls into the next one).
\<close>

definition MakeDay :: "int \<Rightarrow> int \<Rightarrow> int \<Rightarrow> int" where
  "MakeDay y m d = DayFromYear y + (\<Sum>k \<leftarrow> [1..m - 1]. daysInMonth y k) + (d - 1)"

text \<open>The decimal value of a run of digits.\<close>

definition digitsValue :: "jsstring \<Rightarrow> int" where
  "digitsValue ds = foldl (\<lambda>acc c. 10 * acc + (c - 48)) 0 ds"

definition yearOf :: "jsstring \<Rightarrow> int" where
  "yearOf dateStr = digitsValue (take 4 dateStr)"

definition monthOf :: "jsstring \<Rightarrow> int" where
  "monthOf dateStr = digitsValue (take 2 (drop 5 dateStr))"

definition dayOf :: "jsstring \<Rightarrow> int" where
  "dayOf dateStr = digitsValue (take 2 (drop 8 dateStr))"

text \<open>
  \<^verbatim>\<open>new Date(dateStr)\<close> for a string of the shape \<^verbatim>\<open>dddd-dd-dd\<close> (the only strings the
  extension passes), as the extension host's engine (V8) parses a date-only ISO string:
  UTC midnight of the date; the month must be 1..12 and the day 1..31, anything else is an
  Invalid Date. A day that the month does not have (30 February) is accepted and rolls over
  through \<^verbatim>\<open>MakeDay\<close>.
\<close>

definition newDate :: "jsstring \<Rightarrow> number" where
  "newDate dateStr =
     (let y = yearOf dateStr; m = monthOf dateStr; d = dayOf dateStr
      in if 1 \<le> m \<and> m \<le> 12 \<and> 1 \<le> d \<and> d \<le> 31 then Num (MakeDay y m d * msPerDay) else NaN)"

text \<open>
  \<^verbatim>\<open>setHours(0, 0, 0, 0)\<close>: midnight of the local day that holds the instant \<open>t\<close>. The local
  time zone is a parameter \<open>tz\<close>, its offset from UTC in milliseconds (local = UTC + tz),
  taken as constant.
\<close>

definition setHours0 :: "int \<Rightarrow> int \<Rightarrow> int" where
  "setHours0 tz t = ((t + tz) div msPerDay) * msPerDay - tz"

text \<open>
  \<^verbatim>\<open>getDay()\<close> of the local day of \<open>t\<close>: 0 is Sunday; 1 January 1970 was a Thursday.
  date-fns \<^verbatim>\<open>isWeekend\<close> is \<^verbatim>\<open>day === 0 || day === 6\<close>.
\<close>

definition getDay :: "int \<Rightarrow> int \<Rightarrow> int" where
  "getDay tz t = ((t + tz) div msPerDay + 4) mod 7"

definition isWeekend :: "int \<Rightarrow> int \<Rightarrow> bool" where
  "isWeekend tz t = (getDay tz t = 0 \<or> getDay tz t = 6)"

text \<open>
  date-fns \<^verbatim>\<open>eachDayOfInterval({ start, end })\<close> for two local midnights: the local midnights
  from \<open>start\<close> to \<open>end\<close>, both included. The only caller orders its arguments, so
  \<open>start \<le> end\<close> there; the list is empty otherwise.
\<close>

fun daysFrom :: "int \<Rightarrow> nat \<Rightarrow> int list" where
  "daysFrom day 0 = []"
| "daysFrom day (Suc n) = day # daysFrom (day + msPerDay) n"

definition eachDayOfInterval :: "int \<Rightarrow> int \<Rightarrow> int list" where
  "eachDayOfInterval start end =
     (if end < start then [] else daysFrom start (nat ((end - start) div msPerDay) + 1))"

text \<open>
  \<^verbatim>\<open>isValidDate\<close>: \<^verbatim>\<open>isValid(parse(dateStr, 'yyyy-MM-dd', new Date()))\<close>. For a string of the
  shape \<^verbatim>\<open>dddd-dd-dd\<close>, date-fns \<^verbatim>\<open>parse\<close> yields a valid date exactly when the year is
  positive, the month is 1..12 and the day exists in that month of that year.
\<close>

definition isValidDate :: "jsstring \<Rightarrow> bool" where
  "isValidDate dateStr =
     (let y = yearOf dateStr; m = monthOf dateStr; d = dayOf dateStr
      in 0 < y \<and> 1 \<le> m \<and> m \<le> 12 \<and> 1 \<le> d \<and> d \<le> daysInMonth y m)"

section \<open>Distance, buckets and colours\<close>

text \<open>
  \<^verbatim>\<open>Math.round\<close> on the rationals the colour formulas produce, and the decimal text of an
  integer as a template literal prints it.
\<close>

definition Math_round :: "rat \<Rightarrow> int" where
  "Math_round x = \<lfloor>x + 1 / 2\<rfloor>"

function showNat :: "nat \<Rightarrow> string" where
  "showNat n =
     (if n < 10 then [''0123456789'' ! n]
      else showNat (n div 10) @ [''0123456789'' ! (n mod 10)])"
  by pat_completeness auto
termination
  by (relation "measure id") auto

declare showNat.simps [simp del]

definition showInt :: "int \<Rightarrow> string" where
  "showInt i = (if i < 0 then CHR ''-'' # showNat (nat (- i)) else showNat (nat i))"

text \<open>
  \<^verbatim>\<open>src/src/extension.ts\<close>, \<^verbatim>\<open>calculateColor\<close>. For \<^verbatim>\<open>NaN\<close> both comparisons are false, and
  \<^verbatim>\<open>Math.max(0, NaN)\<close>, \<^verbatim>\<open>Math.min(255, NaN)\<close> and \<^verbatim>\<open>Math.round(NaN)\<close> are \<^verbatim>\<open>NaN\<close>.
\<close>

fun calculateColor :: "number \<Rightarrow> string" where
  "calculateColor NaN = ''rgb(NaN, 0, NaN)''"
| "calculateColor (Num diffDays) =
     (if diffDays \<le> 0 then ''rgb(255, 0, 0)''
      else if diffDays \<ge> 50 then ''rgb(0, 0, 255)''
      else
        (let redValue = max 0 (255 - (of_int diffDays * 3 * 255 / 50));
             blueValue = min 255 (of_int diffDays * 3 * 255 / 50)
         in ''rgb('' @ showInt (Math_round redValue) @ '', 0''
              @ '', '' @ showInt (Math_round blueValue) @ '')''))"

text \<open>
  \<^verbatim>\<open>part_000\<close>:
  \<^verbatim>\<open>const FIBONACCI_BOUNDARIES = [1, 2, 3, 5, 8, 13, 21, 34, 55, 89];\<close>
  \<^verbatim>\<open>const MAX_FIBONACCI_NUMBER = FIBONACCI_BOUNDARIES[FIBONACCI_BOUNDARIES.length - 1];\<close>
\<close>

definition FIBONACCI_BOUNDARIES :: "int list" where
  "FIBONACCI_BOUNDARIES = [1, 2, 3, 5, 8, 13, 21, 34, 55, 89]"

definition MAX_FIBONACCI_NUMBER :: int where
  "MAX_FIBONACCI_NUMBER = FIBONACCI_BOUNDARIES ! (length FIBONACCI_BOUNDARIES - 1)"

definition TEXT_COLOR :: string where
  "TEXT_COLOR = ''black''"

definition MAX_HUE :: int where
  "MAX_HUE = 210"

definition RED_HUE :: string where
  "RED_HUE = ''hsl(0, 100%, 50%)''"

definition BLUE_HUE :: string where
  "BLUE_HUE = ''hsl('' @ showInt MAX_HUE @ '', 100%, 50%)''"

text \<open>
  \<^verbatim>\<open>getFibonacciCategory\<close>: the two early returns, then
  \<^verbatim>\<open>[...FIBONACCI_BOUNDARIES].reverse().find(boundary => diffDays >= boundary)\<close>
  with the fallback \<^verbatim>\<open>category ?? 1\<close>. Its argument is a signed count of days, an integer.
\<close>

definition getFibonacciCategory :: "int \<Rightarrow> int" where
  "getFibonacciCategory diffDays =
     (if diffDays \<le> 0 then 0
      else if diffDays > MAX_FIBONACCI_NUMBER then MAX_FIBONACCI_NUMBER
      else (case find (\<lambda>boundary. diffDays \<ge> boundary) (rev FIBONACCI_BOUNDARIES) of
              Some category \<Rightarrow> category
            | None \<Rightarrow> 1))"

text \<open>\<^verbatim>\<open>Array.prototype.indexOf\<close>: the first index of the value, or -1.\<close>

fun indexOf :: "int list \<Rightarrow> int \<Rightarrow> int" where
  "indexOf [] x = - 1"
| "indexOf (y # ys) x =
     (if y = x then 0 else (let r = indexOf ys x in if r < 0 then - 1 else r + 1))"

text \<open>
  \<^verbatim>\<open>part_000\<close>, \<^verbatim>\<open>calculateColor\<close>. \<^verbatim>\<open>NaN\<close> fails both comparisons and is at no index of the
  array, so its hue is 0.
\<close>

fun calculateColor_fib :: "number \<Rightarrow> string" where
  "calculateColor_fib NaN = ''hsl(0, 100%, 50%)''"
| "calculateColor_fib (Num fibonacciCategory) =
     (if fibonacciCategory \<le> 0 then RED_HUE
      else if fibonacciCategory \<ge> FIBONACCI_BOUNDARIES ! (length FIBONACCI_BOUNDARIES - 1)
        then BLUE_HUE
      else
        (let index = indexOf FIBONACCI_BOUNDARIES fibonacciCategory + 1;
             maxIndex = int (length FIBONACCI_BOUNDARIES);
             ratio = (of_int index :: rat) / of_int maxIndex;
             hue = Math_round (ratio * of_int MAX_HUE)
         in ''hsl('' @ showInt hue @ '', 100%, 50%)''))"

text \<open>
  \<^verbatim>\<open>calculateBusinessDays\<close>: 0 for equal instants, else the number of days of
  \<^verbatim>\<open>eachDayOfInterval({ start: startDate, end: endDate })\<close> that are not a weekend.
\<close>

definition calculateBusinessDays :: "int \<Rightarrow> int \<Rightarrow> int \<Rightarrow> int" where
  "calculateBusinessDays tz startDate endDate =
     (if startDate = endDate then 0
      else
        (let days = eachDayOfInterval startDate endDate
         in int (length (filter (\<lambda>day. \<not> isWeekend tz day) days))))"

section \<open>Decoration types and the editor\<close>

text \<open>
  A \<^verbatim>\<open>TextEditorDecorationType\<close> is identified by the number of
  \<^verbatim>\<open>createTextEditorDecorationType\<close> calls made before its own. The state holds the module's
  map \<^verbatim>\<open>futureDecorationTypes\<close> (a JS \<^verbatim>\<open>Map\<close>, in insertion order), the decoration types
  pushed to \<^verbatim>\<open>context.subscriptions\<close>, and what the host has been asked: the options of
  every decoration type created (background colour, text colour), every \<^verbatim>\<open>dispose()\<close> call
  in order, and the ranges last given to \<^verbatim>\<open>setDecorations\<close> for each decoration type of the
  editor. A position is represented by its offset.
\<close>

type_synonym handle = nat

type_synonym range = "nat \<times> nat"

record state =
  futureDecorationTypes :: "(number \<times> handle) list"
  subscriptions :: "handle list"
  created :: "(string \<times> string) list"
  disposed :: "handle list"
  rendered :: "handle \<Rightarrow> range list"

definition createTextEditorDecorationType :: "string \<Rightarrow> string \<Rightarrow> state \<Rightarrow> handle \<times> state" where
  "createTextEditorDecorationType backgroundColor color s =
     (length (created s), s\<lparr>created := created s @ [(backgroundColor, color)]\<rparr>)"

definition setDecorations :: "handle \<Rightarrow> range list \<Rightarrow> state \<Rightarrow> state" where
  "setDecorations decorationType ranges s = s\<lparr>rendered := (rendered s)(decorationType := ranges)\<rparr>"

definition dispose :: "handle \<Rightarrow> state \<Rightarrow> state" where
  "dispose decorationType s = s\<lparr>disposed := disposed s @ [decorationType]\<rparr>"

text \<open>
  Module load: \<^verbatim>\<open>pastDateDecorationType\<close> is created by the first statement of the module,
  \<^verbatim>\<open>futureDecorationTypes\<close> is an empty map.
\<close>

definition pastDateDecorationType :: handle where
  "pastDateDecorationType = 0"

definition module_load :: state where
  "module_load =
     \<lparr>futureDecorationTypes = [], subscriptions = [],
      created = [(''rgb(255, 0, 0)'', ''white'')], disposed = [], rendered = (\<lambda>_. [])\<rparr>"

definition module_load_fib :: state where
  "module_load_fib =
     \<lparr>futureDecorationTypes = [], subscriptions = [],
      created = [(RED_HUE, TEXT_COLOR)], disposed = [], rendered = (\<lambda>_. [])\<rparr>"

text \<open>\<^verbatim>\<open>diffDays <= 0\<close> on a JS number.\<close>

fun nonPositive :: "number \<Rightarrow> bool" where
  "nonPositive (Num d) = (d \<le> 0)"
| "nonPositive NaN = False"

text \<open>
  \<^verbatim>\<open>getOrCreateDecorationType\<close> has the same body in both revisions, up to the colour
  function and the text colour. \<^verbatim>\<open>Map.has\<close> and \<^verbatim>\<open>Map.get\<close> compare keys by SameValueZero,
  under which \<^verbatim>\<open>NaN\<close> is equal to itself; the \<^verbatim>\<open>get\<close> after the \<^verbatim>\<open>if\<close> returns the entry that
  was found or the one just stored.
\<close>

definition getOrCreateDecorationType_with ::
    "(number \<Rightarrow> string) \<Rightarrow> string \<Rightarrow> number \<Rightarrow> state \<Rightarrow> handle \<times> state" where
  "getOrCreateDecorationType_with color textColor diffDays s =
     (if nonPositive diffDays then (pastDateDecorationType, s)
      else
        (case map_of (futureDecorationTypes s) diffDays of
           Some decorationType \<Rightarrow> (decorationType, s)
         | None \<Rightarrow>
             (let (decorationType, s') = createTextEditorDecorationType (color diffDays) textColor s
              in (decorationType,
                  s'\<lparr>futureDecorationTypes := futureDecorationTypes s' @ [(diffDays, decorationType)],
                     subscriptions := subscriptions s' @ [decorationType]\<rparr>))))"

definition getOrCreateDecorationType :: "number \<Rightarrow> state \<Rightarrow> handle \<times> state" where
  "getOrCreateDecorationType = getOrCreateDecorationType_with calculateColor ''white''"

definition getOrCreateDecorationType_fib :: "number \<Rightarrow> state \<Rightarrow> handle \<times> state" where
  "getOrCreateDecorationType_fib = getOrCreateDecorationType_with calculateColor_fib TEXT_COLOR"

section \<open>The update cycle\<close>

text \<open>
  \<^verbatim>\<open>while ((match = dateRegex.exec(text))) { ... }\<close>: the loop body runs on each
  \<^verbatim>\<open>match.index\<close>, and the next search starts behind the match.
\<close>

function whileExec ::
    "(jsstring \<Rightarrow> nat \<Rightarrow> bool) \<Rightarrow> (nat \<Rightarrow> 'a \<Rightarrow> 'a) \<Rightarrow> jsstring \<Rightarrow> nat \<Rightarrow> 'a \<Rightarrow> 'a" where
  "whileExec re body text lastIndex acc =
     (case exec re text lastIndex of
        None \<Rightarrow> acc
      | Some index \<Rightarrow> whileExec re body text (index + 10) (body index acc))"
  by pat_completeness auto
termination
proof (relation "measure (\<lambda>(re, body, doc, lastIndex, acc). length doc + 1 - lastIndex)")
  show "wf (measure (\<lambda>(re, body, doc, lastIndex, acc). length doc + 1 - lastIndex))"
    by simp
next
  fix re :: "jsstring \<Rightarrow> nat \<Rightarrow> bool" and body :: "nat \<Rightarrow> 'a \<Rightarrow> 'a"
    and doc :: jsstring and lastIndex index :: nat and acc :: 'a
  assume "exec re doc lastIndex = Some index"
  then have "lastIndex \<le> index \<and> index \<le> length doc"
    by (rule exec_range)
  then show "((re, body, doc, index + 10, body index acc), (re, body, doc, lastIndex, acc))
      \<in> measure (\<lambda>(re, body, doc, lastIndex, acc). length doc + 1 - lastIndex)"
    by (simp, arith)
qed

declare whileExec.simps [simp del]

text \<open>
  The offsets of the matches that this loop of \<^verbatim>\<open>exec\<close> calls meets, in the order in which it
  meets them.
\<close>

function matches :: "(jsstring \<Rightarrow> nat \<Rightarrow> bool) \<Rightarrow> jsstring \<Rightarrow> nat \<Rightarrow> nat list" where
  "matches re text lastIndex =
     (case exec re text lastIndex of
        None \<Rightarrow> []
      | Some index \<Rightarrow> index # matches re text (index + 10))"
  by pat_completeness auto
termination
proof (relation "measure (\<lambda>(re, doc, lastIndex). length doc + 1 - lastIndex)")
  show "wf (measure (\<lambda>(re, doc, lastIndex). length doc + 1 - lastIndex))"
    by simp
next
  fix re :: "jsstring \<Rightarrow> nat \<Rightarrow> bool" and doc :: jsstring and lastIndex index :: nat
  assume "exec re doc lastIndex = Some index"
  then have "lastIndex \<le> index \<and> index \<le> length doc"
    by (rule exec_range)
  then show "((re, doc, index + 10), (re, doc, lastIndex))
      \<in> measure (\<lambda>(re, doc, lastIndex). length doc + 1 - lastIndex)"
    by (simp, arith)
qed

declare matches.simps [simp del]

text \<open>
  \<^verbatim>\<open>document.positionAt(offset)\<close>: the host adjusts the offset into the document.
\<close>

definition positionAt :: "jsstring \<Rightarrow> int \<Rightarrow> nat" where
  "positionAt text offset = nat (max 0 (min offset (int (length text))))"

text \<open>
  \<^verbatim>\<open>if (!decorationsMap.has(k)) { decorationsMap.set(k, []); }\<close>
  \<^verbatim>\<open>decorationsMap.get(k)!.push(decoration);\<close>
\<close>

type_synonym decorationsMap = "(number \<times> range list) list"

definition pushDecoration :: "number \<Rightarrow> range \<Rightarrow> decorationsMap \<Rightarrow> decorationsMap" where
  "pushDecoration k decoration decorationsMap =
     (let decorationsMap' =
            (if map_of decorationsMap k = None then decorationsMap @ [(k, [])] else decorationsMap)
      in map (\<lambda>(k', decorations).
                if k' = k then (k', decorations @ [decoration]) else (k', decorations))
           decorationsMap')"

text \<open>
  The loop body of \<^verbatim>\<open>src/src/extension.ts\<close> (lines 95 to 112). There is no validity check:
  an Invalid Date has the time value \<^verbatim>\<open>NaN\<close>, and so have \<^verbatim>\<open>diffTime\<close> and
  \<^verbatim>\<open>Math.ceil(diffTime / (1000 * 60 * 60 * 24))\<close>.
\<close>

definition updateDecorations_body :: "int \<Rightarrow> jsstring \<Rightarrow> nat \<Rightarrow> decorationsMap \<Rightarrow> decorationsMap" where
  "updateDecorations_body today text index decorationsMap =
     (let dateStr = matched text index;
          date = newDate dateStr;
          startPos = positionAt text (int index);
          endPos = positionAt text (int index + int (length dateStr));
          diffDays =
            (case date of
               NaN \<Rightarrow> NaN
             | Num t \<Rightarrow> Num \<lceil>(of_int (t - today) :: rat) / of_int msPerDay\<rceil>);
          decoration = (startPos, endPos)
      in pushDecoration diffDays decoration decorationsMap)"

text \<open>
  The loop body of \<^verbatim>\<open>part_000\<close> (lines 172 to 201). An invalid date is skipped by
  \<^verbatim>\<open>continue\<close>. After the check \<^verbatim>\<open>new Date(dateStr)\<close> is never an Invalid Date (lemma
  \<open>isValidDate_newDate\<close> below), so the \<^verbatim>\<open>NaN\<close> branch is never taken.
\<close>

definition updateDecorations_body_fib ::
    "int \<Rightarrow> int \<Rightarrow> jsstring \<Rightarrow> nat \<Rightarrow> decorationsMap \<Rightarrow> decorationsMap" where
  "updateDecorations_body_fib tz today text index decorationsMap =
     (let dateStr = matched text index
      in if \<not> isValidDate dateStr then decorationsMap
         else
           (case newDate dateStr of
              NaN \<Rightarrow> decorationsMap
            | Num t \<Rightarrow>
                (let date = setHours0 tz t;
                     startPos = positionAt text (int index - 1);
                     endPos = positionAt text (int index + int (length dateStr) + 1);
                     (start, end) = (if date < today then (date, today) else (today, date));
                     diffDays = calculateBusinessDays tz start end;
                     signedDiffDays = (if date < today then - diffDays else diffDays);
                     fibonacciCategory = getFibonacciCategory signedDiffDays;
                     decoration = (startPos, endPos)
                 in pushDecoration (Num fibonacciCategory) decoration decorationsMap)))"

text \<open>
  The end of \<^verbatim>\<open>updateDecorations\<close>, the same in both revisions: clear the ranges of the
  past decoration type and of every decoration type in the map, then apply each group.
\<close>

definition clearDecorations :: "state \<Rightarrow> state" where
  "clearDecorations s =
     fold (\<lambda>(k, decType). setDecorations decType []) (futureDecorationTypes s)
       (setDecorations pastDateDecorationType [] s)"

definition applyDecorations ::
    "(number \<Rightarrow> state \<Rightarrow> handle \<times> state) \<Rightarrow> decorationsMap \<Rightarrow> state \<Rightarrow> state" where
  "applyDecorations getOrCreate decorationsMap s =
     fold (\<lambda>(diffDays, decorations) st.
             (let (decorationType, st') = getOrCreate diffDays st
              in setDecorations decorationType decorations st'))
       decorationsMap s"

text \<open>
  \<^verbatim>\<open>updateDecorations\<close>. The arguments stand for what the function reads from its
  environment: the time zone, \<^verbatim>\<open>new Date()\<close> as a time value, and the text of the active
  editor's document (\<open>None\<close> when \<^verbatim>\<open>activeEditor\<close> is undefined).
\<close>

definition updateDecorations :: "int \<Rightarrow> int \<Rightarrow> jsstring option \<Rightarrow> state \<Rightarrow> state" where
  "updateDecorations tz now activeEditor s =
     (case activeEditor of
        None \<Rightarrow> s
      | Some text \<Rightarrow>
          (let today = setHours0 tz now;
               decorationsMap = whileExec dateRegex (updateDecorations_body today text) text 0 []
           in applyDecorations getOrCreateDecorationType decorationsMap (clearDecorations s)))"

definition updateDecorations_fib :: "int \<Rightarrow> int \<Rightarrow> jsstring option \<Rightarrow> state \<Rightarrow> state" where
  "updateDecorations_fib tz now activeEditor s =
     (case activeEditor of
        None \<Rightarrow> s
      | Some text \<Rightarrow>
          (let today = setHours0 tz now;
               decorationsMap =
                 whileExec dateRegex_fib (updateDecorations_body_fib tz today text) text 0 []
           in applyDecorations getOrCreateDecorationType_fib decorationsMap (clearDecorations s)))"

text \<open>\<^verbatim>\<open>deactivate\<close>, the same in both revisions.\<close>

definition deactivate :: "state \<Rightarrow> state" where
  "deactivate s =
     (let s1 = dispose pastDateDecorationType s;
          s2 = fold (\<lambda>(k, decorationType). dispose decorationType) (futureDecorationTypes s1) s1
      in s2\<lparr>futureDecorationTypes := []\<rparr>)"

text \<open>
  The host's part of a deactivation. By the VS Code API the disposables in
  \<^verbatim>\<open>context.subscriptions\<close> are disposed when the extension is deactivated: the host calls
  \<^verbatim>\<open>deactivate\<close> and then \<^verbatim>\<open>dispose()\<close> on every element of the array. Of the subscriptions
  only the decoration types are in the state.
\<close>

definition disposeSubscriptions :: "state \<Rightarrow> state" where
  "disposeSubscriptions s = fold dispose (subscriptions s) s"

definition deactivation :: "state \<Rightarrow> state" where
  "deactivation s = disposeSubscriptions (deactivate s)"

text \<open>
  Normal operation is any number of update cycles, on any text at any time:
  \<open>cycles s s'\<close> says that such a run leads from \<open>s\<close> to \<open>s'\<close>. A session starts at module
  load. A lifecycle may also run \<^verbatim>\<open>deactivate\<close>, any number of times and with update cycles
  after it.
\<close>

inductive cycles :: "state \<Rightarrow> state \<Rightarrow> bool" where
  cycles_refl: "cycles s s"
| cycles_update: "cycles s s' \<Longrightarrow> cycles s (updateDecorations tz now activeEditor s')"

inductive cycles_fib :: "state \<Rightarrow> state \<Rightarrow> bool" where
  cycles_fib_refl: "cycles_fib s s"
| cycles_fib_update: "cycles_fib s s' \<Longrightarrow> cycles_fib s (updateDecorations_fib tz now activeEditor s')"

definition session :: "state \<Rightarrow> bool" where
  "session s = cycles module_load s"

definition session_fib :: "state \<Rightarrow> bool" where
  "session_fib s = cycles_fib module_load_fib s"

inductive lifecycle :: "state \<Rightarrow> state \<Rightarrow> bool" where
  lifecycle_refl: "lifecycle s s"
| lifecycle_update: "lifecycle s s' \<Longrightarrow> lifecycle s (updateDecorations tz now activeEditor s')"
| lifecycle_deactivate: "lifecycle s s' \<Longrightarrow> lifecycle s (deactivate s')"

text \<open>
  The invariant of a session: the keys of \<^verbatim>\<open>futureDecorationTypes\<close> are distinct and none
  is \<open>\<le> 0\<close>, its values are, in order, all decoration types created after the first one,
  and nothing has been disposed.
\<close>

definition registry_ok :: "state \<Rightarrow> bool" where
  "registry_ok s =
     (distinct (map fst (futureDecorationTypes s))
      \<and> list_all (\<lambda>k. \<not> nonPositive k) (map fst (futureDecorationTypes s))
      \<and> map snd (futureDecorationTypes s) = [1..<length (created s)]
      \<and> created s \<noteq> []
      \<and> disposed s = [])"

text \<open>
  What stays true over a whole lifecycle: no key of the map is \<open>\<le> 0\<close>, and the first
  decoration type exists.
\<close>

definition keys_ok :: "state \<Rightarrow> bool" where
  "keys_ok s = (list_all (\<lambda>k. \<not> nonPositive k) (map fst (futureDecorationTypes s)) \<and> created s \<noteq> [])"

text \<open>
  Every decoration type in the map was created with the colour of its key.
\<close>

definition colours_ok :: "(number \<Rightarrow> string) \<Rightarrow> string \<Rightarrow> state \<Rightarrow> bool" where
  "colours_ok color textColor s =
     list_all (\<lambda>(k, h). h < length (created s) \<and> created s ! h = (color k, textColor))
       (futureDecorationTypes s)"

text \<open>
  The decoration types in \<^verbatim>\<open>context.subscriptions\<close> are those of the map, in the same order.
\<close>

definition subscriptions_ok :: "state \<Rightarrow> bool" where
  "subscriptions_ok s = (subscriptions s = map snd (futureDecorationTypes s))"

section \<open>The update scheduler\<close>

text \<open>
  \<^verbatim>\<open>activate\<close> keeps one variable, \<^verbatim>\<open>timeout\<close>. The host side is the list of armed timers,
  each with the time at which it is due, and a clock in milliseconds; \<open>executions\<close> logs
  the time of every call of \<^verbatim>\<open>updateDecorations\<close>. A timer is identified by the number of
  \<^verbatim>\<open>setTimeout\<close> calls made before its own.
\<close>

record scheduler =
  timeout :: "nat option"
  timers :: "(nat \<times> nat) list"
  nextTimer :: nat
  clock :: nat
  executions :: "nat list"

definition clearTimeout :: "nat \<Rightarrow> scheduler \<Rightarrow> scheduler" where
  "clearTimeout t sch = sch\<lparr>timers := filter (\<lambda>(t', due). t' \<noteq> t) (timers sch)\<rparr>"

definition setTimeout :: "nat \<Rightarrow> scheduler \<Rightarrow> nat \<times> scheduler" where
  "setTimeout delay sch =
     (nextTimer sch,
      sch\<lparr>timers := timers sch @ [(nextTimer sch, clock sch + delay)],
          nextTimer := nextTimer sch + 1\<rparr>)"

definition callUpdateDecorations :: "scheduler \<Rightarrow> scheduler" where
  "callUpdateDecorations sch = sch\<lparr>executions := executions sch @ [clock sch]\<rparr>"

text \<open>
  \<^verbatim>\<open>triggerUpdateDecorations\<close> (lines 17 to 27). A \<^verbatim>\<open>Timeout\<close> object is truthy, so
  \<^verbatim>\<open>if (timeout)\<close> asks whether the variable is set.
\<close>

definition triggerUpdateDecorations :: "bool \<Rightarrow> scheduler \<Rightarrow> scheduler" where
  "triggerUpdateDecorations throttle sch =
     (let sch1 =
            (case timeout sch of
               Some t \<Rightarrow> (clearTimeout t sch)\<lparr>timeout := None\<rparr>
             | None \<Rightarrow> sch)
      in if throttle
         then (let (t, sch2) = setTimeout 200 sch1 in sch2\<lparr>timeout := Some t\<rparr>)
         else callUpdateDecorations sch1)"

text \<open>
  The command \<^verbatim>\<open>highlight-date.refreshHighlights\<close> (lines 30 to 34); its argument is
  whether \<^verbatim>\<open>vscode.window.activeTextEditor\<close> is set.
\<close>

definition refreshCommand :: "bool \<Rightarrow> scheduler \<Rightarrow> scheduler" where
  "refreshCommand activeTextEditor sch =
     (if activeTextEditor then callUpdateDecorations sch else sch)"

text \<open>
  Time passes: every timer that is due by then fires, which calls \<^verbatim>\<open>updateDecorations\<close>
  and leaves the variable \<^verbatim>\<open>timeout\<close> as it is.
\<close>

definition elapse :: "nat \<Rightarrow> scheduler \<Rightarrow> scheduler" where
  "elapse dt sch =
     (let now = clock sch + dt
      in sch\<lparr>clock := now,
             timers := filter (\<lambda>(t, due). \<not> due \<le> now) (timers sch),
             executions := executions sch @ map snd (filter (\<lambda>(t, due). due \<le> now) (timers sch))\<rparr>)"

text \<open>
  \<^verbatim>\<open>activate\<close> at time \<open>now\<close> (lines 16 and 129 to 131), and the events it subscribes to:
  a change of the active editor (to an editor or to none), a change of a document (of the
  active editor or not), the refresh command, and the passing of time.
\<close>

definition activate :: "nat \<Rightarrow> bool \<Rightarrow> scheduler" where
  "activate now activeEditor =
     (let sch = \<lparr>timeout = None, timers = [], nextTimer = 0, clock = now, executions = []\<rparr>
      in if activeEditor then triggerUpdateDecorations False sch else sch)"

datatype event =
    ChangeActiveTextEditor bool
  | ChangeTextDocument bool
  | RefreshHighlights bool
  | Elapse nat

fun handle_event :: "event \<Rightarrow> scheduler \<Rightarrow> scheduler" where
  "handle_event (ChangeActiveTextEditor editor) sch =
     (if editor then triggerUpdateDecorations False sch else sch)"
| "handle_event (ChangeTextDocument ofActiveEditor) sch =
     (if ofActiveEditor then triggerUpdateDecorations True sch else sch)"
| "handle_event (RefreshHighlights activeTextEditor) sch = refreshCommand activeTextEditor sch"
| "handle_event (Elapse dt) sch = elapse dt sch"

inductive running :: "scheduler \<Rightarrow> bool" where
  running_activate: "running (activate now activeEditor)"
| running_event: "running sch \<Longrightarrow> running (handle_event e sch)"

text \<open>
  The invariant of the scheduler: at most one timer is armed, and it is the one the variable
  \<^verbatim>\<open>timeout\<close> refers to.
\<close>

definition scheduler_ok :: "scheduler \<Rightarrow> bool" where
  "scheduler_ok sch =
     (length (timers sch) \<le> 1 \<and> list_all (\<lambda>(t, due). timeout sch = Some t) (timers sch))"

section \<open>Boundary buckets\<close>

lemma MAX_FIBONACCI_NUMBER_eq: "MAX_FIBONACCI_NUMBER = 89"
  by (simp add: MAX_FIBONACCI_NUMBER_def FIBONACCI_BOUNDARIES_def)

text \<open>
  Claim C5. With the thresholds 1, 2, 3, 5, 8, 13, 21, 34, 55, 89, \<^verbatim>\<open>getFibonacciCategory\<close>
  maps every integer distance \<open>d \<le> 0\<close> to 0 and every \<open>d > 89\<close> to 89; for \<open>0 < d \<le> 89\<close> the
  category is a threshold, does not exceed \<open>d\<close>, is at least every threshold that does not
  exceed \<open>d\<close>, and is the first threshold \<open>\<le> d\<close> met when the thresholds are scanned in
  descending order.
\<close>

theorem getFibonacciCategory_largest_threshold:
  "FIBONACCI_BOUNDARIES = [1, 2, 3, 5, 8, 13, 21, 34, 55, 89] \<and>
   (d \<le> 0 \<longrightarrow> getFibonacciCategory d = 0) \<and>
   (d > 89 \<longrightarrow> getFibonacciCategory d = 89) \<and>
   (0 < d \<and> d \<le> 89 \<longrightarrow>
      getFibonacciCategory d \<in> set FIBONACCI_BOUNDARIES \<and>
      getFibonacciCategory d \<le> d \<and>
      (\<forall>b \<in> set FIBONACCI_BOUNDARIES. b \<le> d \<longrightarrow> b \<le> getFibonacciCategory d) \<and>
      find (\<lambda>b. b \<le> d) (rev FIBONACCI_BOUNDARIES) = Some (getFibonacciCategory d))"
  by (auto simp: getFibonacciCategory_def MAX_FIBONACCI_NUMBER_eq FIBONACCI_BOUNDARIES_def)

theorem getFibonacciCategory_largest_threshold_witness:
  "(0::int) < 49 \<and> (49::int) \<le> 89 \<and> getFibonacciCategory 49 = 34 \<and>
   getFibonacciCategory (- 3) = 0 \<and> getFibonacciCategory 120 = 89"
proof -
  have "find (\<lambda>b. b \<le> 49) (rev FIBONACCI_BOUNDARIES) = Some (getFibonacciCategory 49)"
    using getFibonacciCategory_largest_threshold [of 49] by simp
  moreover have "find (\<lambda>b. b \<le> 49) (rev FIBONACCI_BOUNDARIES) = Some 34"
    by (simp add: FIBONACCI_BOUNDARIES_def)
  moreover have "getFibonacciCategory (- 3) = 0"
    using getFibonacciCategory_largest_threshold [of "- 3"] by simp
  moreover have "getFibonacciCategory 120 = 89"
    using getFibonacciCategory_largest_threshold [of 120] by simp
  ultimately show ?thesis by simp
qed

section \<open>Business-day distance\<close>

text \<open>
  Claim C2 says that the business-day distance leaves the start day out, so that a Friday
  and the following Monday are 1 apart. \<^verbatim>\<open>calculateBusinessDays\<close> counts every day of the
  closed interval that is not a weekend, the start day too: with today Friday 14 June 2024
  and the date Monday 17 June 2024 in the text, the count is 2 (the Friday and the Monday)
  and the date lands in the bucket 2.
\<close>

theorem calculateBusinessDays_friday_to_monday:
  "getDay 0 (MakeDay 2024 6 14 * msPerDay) = 5 \<and>
   getDay 0 (MakeDay 2024 6 17 * msPerDay) = 1 \<and>
   calculateBusinessDays 0 (MakeDay 2024 6 14 * msPerDay) (MakeDay 2024 6 17 * msPerDay) = 2 \<and>
   futureDecorationTypes
     (updateDecorations_fib 0 (MakeDay 2024 6 14 * msPerDay) (Some (js ''2024-06-17''))
        module_load_fib) = [(Num 2, 1)]"
proof (intro conjI)
  show "getDay 0 (MakeDay 2024 6 14 * msPerDay) = 5"
    by code_simp
  show "getDay 0 (MakeDay 2024 6 17 * msPerDay) = 1"
    by code_simp
  show "calculateBusinessDays 0 (MakeDay 2024 6 14 * msPerDay) (MakeDay 2024 6 17 * msPerDay) = 2"
    by code_simp
  show "futureDecorationTypes
     (updateDecorations_fib 0 (MakeDay 2024 6 14 * msPerDay) (Some (js ''2024-06-17''))
        module_load_fib) = [(Num 2, 1)]"
    by code_simp
qed

section \<open>Colours\<close>

text \<open>The hues of \<^verbatim>\<open>part_000\<close> over the thresholds.\<close>

lemma calculateColor_fib_thresholds:
  "map (\<lambda>c. calculateColor_fib (Num c)) FIBONACCI_BOUNDARIES =
     [''hsl(21, 100%, 50%)'', ''hsl(42, 100%, 50%)'', ''hsl(63, 100%, 50%)'',
      ''hsl(84, 100%, 50%)'', ''hsl(105, 100%, 50%)'', ''hsl(126, 100%, 50%)'',
      ''hsl(147, 100%, 50%)'', ''hsl(168, 100%, 50%)'', ''hsl(189, 100%, 50%)'',
      ''hsl(210, 100%, 50%)'']"
  by code_simp

text \<open>
  Claim C9 says that two intermediate categories never share a colour. In
  \<^verbatim>\<open>src/src/extension.ts\<close> the channels move by \<^verbatim>\<open>3 * 255 / 50\<close> = 15.3 per day and are
  clamped, so from 17 days on every distance has the colour of the cap, although the
  comment on the branch announces a gradual change over the days 1 to 49.
\<close>

theorem calculateColor_saturates:
  "calculateColor (Num 16) = ''rgb(10, 0, 245)'' \<and>
   calculateColor (Num 17) = ''rgb(0, 0, 255)'' \<and>
   calculateColor (Num 18) = ''rgb(0, 0, 255)'' \<and>
   calculateColor (Num 49) = ''rgb(0, 0, 255)'' \<and>
   calculateColor (Num 50) = ''rgb(0, 0, 255)''"
proof (intro conjI)
  show "calculateColor (Num 16) = ''rgb(10, 0, 245)''"
    by code_simp
  show "calculateColor (Num 17) = ''rgb(0, 0, 255)''"
    by code_simp
  show "calculateColor (Num 18) = ''rgb(0, 0, 255)''"
    by code_simp
  show "calculateColor (Num 49) = ''rgb(0, 0, 255)''"
    by code_simp
  show "calculateColor (Num 50) = ''rgb(0, 0, 255)''"
    by code_simp
qed

section \<open>Extraction\<close>

lemma daysInMonth_le_31: "daysInMonth y m \<le> 31"
  by (simp add: daysInMonth_def)

lemma isValidDate_newDate:
  "isValidDate dateStr \<Longrightarrow>
   newDate dateStr = Num (MakeDay (yearOf dateStr) (monthOf dateStr) (dayOf dateStr) * msPerDay)"
  using daysInMonth_le_31 [of "yearOf dateStr" "monthOf dateStr"]
  by (auto simp: isValidDate_def newDate_def Let_def)

text \<open>The loop is a fold of its body over the matches, from left to right.\<close>

lemma exec_Some_match: "exec re doc i = Some j \<Longrightarrow> re doc j"
proof (induction re doc i rule: exec.induct)
  case (1 re doc lastIndex)
  then show ?case
    by (subst (asm) (2) exec.simps) (auto split: if_splits)
qed

lemma whileExec_fold: "whileExec re body doc i acc = fold body (matches re doc i) acc"
proof (induction re doc i arbitrary: acc rule: matches.induct)
  case (1 re doc lastIndex)
  show ?case
  proof (cases "exec re doc lastIndex")
    case None
    then show ?thesis
      by (simp add: whileExec.simps [of re body doc lastIndex] matches.simps [of re doc lastIndex])
  next
    case (Some index)
    then show ?thesis
      using "1.IH" [OF Some]
      by (simp add: whileExec.simps [of re body doc lastIndex] matches.simps [of re doc lastIndex])
  qed
qed

lemma matches_are_matches: "m \<in> set (matches re doc i) \<Longrightarrow> i \<le> m \<and> re doc m"
proof (induction re doc i rule: matches.induct)
  case (1 re doc lastIndex)
  show ?case
  proof (cases "exec re doc lastIndex")
    case None
    with "1.prems" show ?thesis
      by (simp add: matches.simps [of re doc lastIndex])
  next
    case (Some index)
    from "1.prems" have "m = index \<or> m \<in> set (matches re doc (index + 10))"
      by (simp add: matches.simps [of re doc lastIndex] Some)
    then show ?thesis
    proof
      assume "m = index"
      with Some show ?thesis
        using exec_range [OF Some] exec_Some_match [OF Some] by simp
    next
      assume "m \<in> set (matches re doc (index + 10))"
      then have "index + 10 \<le> m \<and> re doc m"
        by (rule "1.IH" [OF Some])
      with exec_range [OF Some] show ?thesis
        by simp
    qed
  qed
qed

lemma matches_left_to_right: "sorted_wrt (\<lambda>a b. a + 10 \<le> b) (matches re doc i)"
proof (induction re doc i rule: matches.induct)
  case (1 re doc lastIndex)
  show ?case
  proof (cases "exec re doc lastIndex")
    case None
    then show ?thesis
      by (simp add: matches.simps [of re doc lastIndex])
  next
    case (Some index)
    have "\<forall>m \<in> set (matches re doc (index + 10)). index + 10 \<le> m"
      using matches_are_matches by blast
    with "1.IH" [OF Some] show ?thesis
      by (simp add: matches.simps [of re doc lastIndex] Some)
  qed
qed

text \<open>The loop bodies: \<^verbatim>\<open>src/src/extension.ts\<close> styles exactly the token, under whatever
  distance it computes; \<^verbatim>\<open>part_000\<close> leaves the map as it is for a match that fails
  \<^verbatim>\<open>isValidDate\<close>.\<close>

lemma updateDecorations_body_range:
  assumes "datePattern doc index"
  shows "updateDecorations_body today doc index dm =
     pushDecoration
       (case newDate (matched doc index) of
          NaN \<Rightarrow> NaN
        | Num t \<Rightarrow> Num \<lceil>(of_int (t - today) :: rat) / of_int msPerDay\<rceil>)
       (index, index + 10) dm"
proof -
  from assms have len: "index + 10 \<le> length doc"
    by (simp add: datePattern_def)
  then have "length (matched doc index) = 10"
    by (simp add: matched_def)
  moreover from len have "positionAt doc (int index) = index"
    and "positionAt doc (int index + 10) = index + 10"
    by (simp_all add: positionAt_def nat_add_distrib)
  ultimately show ?thesis
    by (simp add: updateDecorations_body_def Let_def)
qed

lemma updateDecorations_body_fib_skips:
  "\<not> isValidDate (matched doc index) \<Longrightarrow> updateDecorations_body_fib tz today doc index dm = dm"
  by (simp add: updateDecorations_body_fib_def)

lemma updateDecorations_fib_skips_invalid:
  "whileExec dateRegex_fib (updateDecorations_body_fib tz today doc) doc 0 []
     = fold (updateDecorations_body_fib tz today doc)
         (filter (\<lambda>index. isValidDate (matched doc index)) (matches dateRegex_fib doc 0)) []"
proof -
  have "fold (updateDecorations_body_fib tz today doc) ms dm
      = fold (updateDecorations_body_fib tz today doc)
          (filter (\<lambda>index. isValidDate (matched doc index)) ms) dm" for ms dm
    by (induction ms arbitrary: dm) (simp_all add: updateDecorations_body_fib_skips)
  then show ?thesis
    by (simp add: whileExec_fold)
qed

text \<open>
  Claim C1 says that a match that is no calendar date is skipped. \<^verbatim>\<open>src/src/extension.ts\<close>
  has no validity check: for the text \<^verbatim>\<open>2024-13-01\<close> the distance is \<^verbatim>\<open>NaN\<close>, which is a key
  of both maps like any other, so a decoration type of the colour \<^verbatim>\<open>rgb(NaN, 0, NaN)\<close> is
  created and the token is given to it. \<^verbatim>\<open>part_000\<close> skips the same token.
\<close>

theorem updateDecorations_styles_month_13:
  "monthOf (js ''2024-13-01'') = 13 \<and>
   futureDecorationTypes
     (updateDecorations 0 1718409600000 (Some (js ''2024-13-01'')) module_load) = [(NaN, 1)] \<and>
   created (updateDecorations 0 1718409600000 (Some (js ''2024-13-01'')) module_load)
     = [(''rgb(255, 0, 0)'', ''white''), (''rgb(NaN, 0, NaN)'', ''white'')] \<and>
   rendered (updateDecorations 0 1718409600000 (Some (js ''2024-13-01'')) module_load) 1
     = [(0, 10)] \<and>
   created (updateDecorations_fib 0 1718409600000 (Some (js ''2024-13-01'')) module_load_fib)
     = created module_load_fib"
proof (intro conjI)
  show "monthOf (js ''2024-13-01'') = 13"
    by code_simp
  show "futureDecorationTypes
     (updateDecorations 0 1718409600000 (Some (js ''2024-13-01'')) module_load) = [(NaN, 1)]"
    by code_simp
  show "created (updateDecorations 0 1718409600000 (Some (js ''2024-13-01'')) module_load)
     = [(''rgb(255, 0, 0)'', ''white''), (''rgb(NaN, 0, NaN)'', ''white'')]"
    by code_simp
  show "rendered (updateDecorations 0 1718409600000 (Some (js ''2024-13-01'')) module_load) 1
     = [(0, 10)]"
    by code_simp
  show "created (updateDecorations_fib 0 1718409600000 (Some (js ''2024-13-01'')) module_load_fib)
     = created module_load_fib"
    by code_simp
qed

text \<open>
  Claim C3 says that the styled range is exactly the token. In \<^verbatim>\<open>part_000\<close> the range runs
  from \<^verbatim>\<open>match.index - 1\<close> to \<^verbatim>\<open>match.index + match[0].length + 1\<close>: in the text
  \<^verbatim>\<open>a 2024-06-17 b\<close> the token is at the offsets 2 to 12 and the range is 1 to 13, the two
  blanks included.
\<close>

theorem updateDecorations_fib_range_is_wider:
  "exec dateRegex_fib (js ''a 2024-06-17 b'') 0 = Some 2 \<and>
   matched (js ''a 2024-06-17 b'') 2 = js ''2024-06-17'' \<and>
   rendered
     (updateDecorations_fib 0 (MakeDay 2024 6 14 * msPerDay) (Some (js ''a 2024-06-17 b''))
        module_load_fib) 1 = [(1, 13)]"
proof (intro conjI)
  show "exec dateRegex_fib (js ''a 2024-06-17 b'') 0 = Some 2"
    by code_simp
  show "matched (js ''a 2024-06-17 b'') 2 = js ''2024-06-17''"
    by code_simp
  show "rendered
     (updateDecorations_fib 0 (MakeDay 2024 6 14 * msPerDay) (Some (js ''a 2024-06-17 b''))
        module_load_fib) 1 = [(1, 13)]"
    by code_simp
qed

section \<open>The registry of decoration types\<close>

lemma setDecorations_fields [simp]:
  "futureDecorationTypes (setDecorations h r s) = futureDecorationTypes s"
  "subscriptions (setDecorations h r s) = subscriptions s"
  "created (setDecorations h r s) = created s"
  "disposed (setDecorations h r s) = disposed s"
  by (simp_all add: setDecorations_def)

lemma fold_setDecorations_fields:
  "futureDecorationTypes (fold (\<lambda>(k, decType). setDecorations decType []) xs s) = futureDecorationTypes s
   \<and> subscriptions (fold (\<lambda>(k, decType). setDecorations decType []) xs s) = subscriptions s
   \<and> created (fold (\<lambda>(k, decType). setDecorations decType []) xs s) = created s
   \<and> disposed (fold (\<lambda>(k, decType). setDecorations decType []) xs s) = disposed s"
  by (induction xs arbitrary: s) (auto split: prod.splits)

lemma clearDecorations_fields [simp]:
  "futureDecorationTypes (clearDecorations s) = futureDecorationTypes s"
  "subscriptions (clearDecorations s) = subscriptions s"
  "created (clearDecorations s) = created s"
  "disposed (clearDecorations s) = disposed s"
  by (simp_all add: clearDecorations_def fold_setDecorations_fields)

lemma registry_ok_cong:
  "futureDecorationTypes s' = futureDecorationTypes s \<Longrightarrow> created s' = created s \<Longrightarrow>
   disposed s' = disposed s \<Longrightarrow> registry_ok s' = registry_ok s"
  by (simp add: registry_ok_def)

text \<open>What one lookup does to the state.\<close>

lemma getOrCreate_nonPositive:
  "nonPositive k \<Longrightarrow> getOrCreateDecorationType_with color tc k s = (pastDateDecorationType, s)"
  by (simp add: getOrCreateDecorationType_with_def)

lemma getOrCreate_found:
  "\<not> nonPositive k \<Longrightarrow> map_of (futureDecorationTypes s) k = Some h \<Longrightarrow>
   getOrCreateDecorationType_with color tc k s = (h, s)"
  by (simp add: getOrCreateDecorationType_with_def)

lemma getOrCreate_new:
  "\<not> nonPositive k \<Longrightarrow> map_of (futureDecorationTypes s) k = None \<Longrightarrow>
   getOrCreateDecorationType_with color tc k s =
     (length (created s),
      s\<lparr>created := created s @ [(color k, tc)],
        futureDecorationTypes := futureDecorationTypes s @ [(k, length (created s))],
        subscriptions := subscriptions s @ [length (created s)]\<rparr>)"
  by (simp add: getOrCreateDecorationType_with_def createTextEditorDecorationType_def)

lemma getOrCreate_cases:
  obtains (past) "nonPositive k" "getOrCreateDecorationType_with color tc k s = (pastDateDecorationType, s)"
  | (found) h where "\<not> nonPositive k" "map_of (futureDecorationTypes s) k = Some h"
      "getOrCreateDecorationType_with color tc k s = (h, s)"
  | (new) "\<not> nonPositive k" "map_of (futureDecorationTypes s) k = None"
      "getOrCreateDecorationType_with color tc k s =
         (length (created s),
          s\<lparr>created := created s @ [(color k, tc)],
            futureDecorationTypes := futureDecorationTypes s @ [(k, length (created s))],
            subscriptions := subscriptions s @ [length (created s)]\<rparr>)"
  using getOrCreate_nonPositive getOrCreate_found getOrCreate_new
  by (cases "nonPositive k"; cases "map_of (futureDecorationTypes s) k") blast+

lemma getOrCreate_twice:
  "getOrCreateDecorationType_with color tc k (snd (getOrCreateDecorationType_with color tc k s))
     = getOrCreateDecorationType_with color tc k s"
proof (cases rule: getOrCreate_cases [of k color tc s])
  case past
  then show ?thesis by simp
next
  case (found h)
  then show ?thesis by simp
next
  case new
  define s' where "s' = snd (getOrCreateDecorationType_with color tc k s)"
  have fdt: "futureDecorationTypes s' = futureDecorationTypes s @ [(k, length (created s))]"
    by (simp add: s'_def new(3))
  have "map_of (futureDecorationTypes s') k = Some (length (created s))"
    using new(2) by (simp add: fdt map_add_def)
  with new(1) have "getOrCreateDecorationType_with color tc k s' = (length (created s), s')"
    by (rule getOrCreate_found)
  then show ?thesis
    by (simp add: s'_def new(3))
qed

lemma getOrCreate_registry_ok:
  assumes "registry_ok s"
  shows "registry_ok (snd (getOrCreateDecorationType_with color tc k s))"
proof (cases rule: getOrCreate_cases [of k color tc s])
  case past
  with assms show ?thesis by simp
next
  case (found h)
  with assms show ?thesis by simp
next
  case new
  from new(2) have fresh: "k \<notin> fst ` set (futureDecorationTypes s)"
    by (simp add: map_of_eq_None_iff)
  from assms have "created s \<noteq> []"
    by (simp add: registry_ok_def)
  then have pos: "Suc 0 \<le> length (created s)"
    by (cases "created s") simp_all
  show ?thesis
    using assms new(1) fresh pos by (simp add: new(3) registry_ok_def)
qed

text \<open>The map and the log of created decoration types only grow in a lookup.\<close>

lemma getOrCreate_grows:
  "\<exists>ks cs. futureDecorationTypes (snd (getOrCreateDecorationType_with color tc k s))
             = futureDecorationTypes s @ ks
         \<and> created (snd (getOrCreateDecorationType_with color tc k s)) = created s @ cs
         \<and> disposed (snd (getOrCreateDecorationType_with color tc k s)) = disposed s"
  by (cases rule: getOrCreate_cases [of k color tc s]) simp_all

lemma applyDecorations_Nil [simp]: "applyDecorations g [] s = s"
  by (simp add: applyDecorations_def)

lemma applyDecorations_Cons [simp]:
  "applyDecorations g ((k, decorations) # dm) s =
     applyDecorations g dm (setDecorations (fst (g k s)) decorations (snd (g k s)))"
  by (simp add: applyDecorations_def split: prod.splits)

lemma applyDecorations_registry_ok:
  "registry_ok s \<Longrightarrow>
   registry_ok (applyDecorations (getOrCreateDecorationType_with color tc) dm s)"
proof (induction dm arbitrary: s)
  case Nil
  then show ?case by simp
next
  case (Cons e dm)
  obtain k decorations where e: "e = (k, decorations)"
    by (cases e)
  let ?s1 = "snd (getOrCreateDecorationType_with color tc k s)"
  let ?h = "fst (getOrCreateDecorationType_with color tc k s)"
  have "registry_ok ?s1"
    using Cons.prems by (rule getOrCreate_registry_ok)
  then have "registry_ok (setDecorations ?h decorations ?s1)"
    by (simp add: registry_ok_cong [of "setDecorations ?h decorations ?s1" ?s1])
  then show ?case
    unfolding e applyDecorations_Cons by (rule Cons.IH)
qed

lemma applyDecorations_grows:
  "\<exists>ks cs. futureDecorationTypes (applyDecorations (getOrCreateDecorationType_with color tc) dm s)
             = futureDecorationTypes s @ ks
         \<and> created (applyDecorations (getOrCreateDecorationType_with color tc) dm s) = created s @ cs
         \<and> disposed (applyDecorations (getOrCreateDecorationType_with color tc) dm s) = disposed s"
proof (induction dm arbitrary: s)
  case Nil
  then show ?case by simp
next
  case (Cons e dm)
  obtain k decorations where e: "e = (k, decorations)"
    by (cases e)
  let ?s1 = "snd (getOrCreateDecorationType_with color tc k s)"
  let ?s2 = "setDecorations (fst (getOrCreateDecorationType_with color tc k s)) decorations ?s1"
  obtain ks cs where 1: "futureDecorationTypes ?s2 = futureDecorationTypes s @ ks"
      "created ?s2 = created s @ cs" "disposed ?s2 = disposed s"
    using getOrCreate_grows [of color tc k s] by auto
  obtain ks' cs' where 2:
      "futureDecorationTypes (applyDecorations (getOrCreateDecorationType_with color tc) dm ?s2)
         = futureDecorationTypes ?s2 @ ks'"
      "created (applyDecorations (getOrCreateDecorationType_with color tc) dm ?s2) = created ?s2 @ cs'"
      "disposed (applyDecorations (getOrCreateDecorationType_with color tc) dm ?s2) = disposed ?s2"
    using Cons.IH [of ?s2] by auto
  show ?case
    unfolding e applyDecorations_Cons using 1 2 by simp
qed


lemma updateDecorations_unfold:
  "updateDecorations tz now (Some doc) s =
     applyDecorations (getOrCreateDecorationType_with calculateColor ''white'')
       (whileExec dateRegex (updateDecorations_body (setHours0 tz now) doc) doc 0 [])
       (clearDecorations s)"
  by (simp add: updateDecorations_def getOrCreateDecorationType_def)

lemma updateDecorations_fib_unfold:
  "updateDecorations_fib tz now (Some doc) s =
     applyDecorations (getOrCreateDecorationType_with calculateColor_fib TEXT_COLOR)
       (whileExec dateRegex_fib (updateDecorations_body_fib tz (setHours0 tz now) doc) doc 0 [])
       (clearDecorations s)"
  by (simp add: updateDecorations_fib_def getOrCreateDecorationType_fib_def)

lemma updateDecorations_None [simp]:
  "updateDecorations tz now None s = s" "updateDecorations_fib tz now None s = s"
  by (simp_all add: updateDecorations_def updateDecorations_fib_def)

lemma clearDecorations_registry_ok: "registry_ok (clearDecorations s) = registry_ok s"
  by (rule registry_ok_cong) simp_all

lemma updateDecorations_registry_ok:
  "registry_ok s \<Longrightarrow> registry_ok (updateDecorations tz now activeEditor s)"
  by (cases activeEditor)
    (simp_all add: updateDecorations_unfold applyDecorations_registry_ok clearDecorations_registry_ok)

lemma updateDecorations_fib_registry_ok:
  "registry_ok s \<Longrightarrow> registry_ok (updateDecorations_fib tz now activeEditor s)"
  by (cases activeEditor)
    (simp_all add: updateDecorations_fib_unfold applyDecorations_registry_ok
       clearDecorations_registry_ok)

text \<open>\<open>grows s s'\<close>: from \<open>s\<close> to \<open>s'\<close> the map and the log of created decoration types were
  only appended to, and nothing was disposed.\<close>

lemma updateDecorations_grows:
  "\<exists>ks cs. futureDecorationTypes (updateDecorations tz now activeEditor s)
             = futureDecorationTypes s @ ks
         \<and> created (updateDecorations tz now activeEditor s) = created s @ cs
         \<and> disposed (updateDecorations tz now activeEditor s) = disposed s"
proof (cases activeEditor)
  case None
  then show ?thesis by simp
next
  case (Some doc)
  show ?thesis
    unfolding Some updateDecorations_unfold
    using applyDecorations_grows [of calculateColor "''white''" _ "clearDecorations s"]
    by simp
qed

lemma updateDecorations_fib_grows:
  "\<exists>ks cs. futureDecorationTypes (updateDecorations_fib tz now activeEditor s)
             = futureDecorationTypes s @ ks
         \<and> created (updateDecorations_fib tz now activeEditor s) = created s @ cs
         \<and> disposed (updateDecorations_fib tz now activeEditor s) = disposed s"
proof (cases activeEditor)
  case None
  then show ?thesis by simp
next
  case (Some doc)
  show ?thesis
    unfolding Some updateDecorations_fib_unfold
    using applyDecorations_grows [of calculateColor_fib TEXT_COLOR _ "clearDecorations s"]
    by simp
qed

lemma cycles_registry_ok: "cycles s s' \<Longrightarrow> registry_ok s \<Longrightarrow> registry_ok s'"
  by (induction rule: cycles.induct) (simp_all add: updateDecorations_registry_ok)

lemma cycles_fib_registry_ok: "cycles_fib s s' \<Longrightarrow> registry_ok s \<Longrightarrow> registry_ok s'"
  by (induction rule: cycles_fib.induct) (simp_all add: updateDecorations_fib_registry_ok)

lemma cycles_grows:
  "cycles s s' \<Longrightarrow>
   \<exists>ks cs. futureDecorationTypes s' = futureDecorationTypes s @ ks \<and> created s' = created s @ cs"
proof (induction rule: cycles.induct)
  case (cycles_refl s)
  then show ?case by simp
next
  case (cycles_update s s' tz now activeEditor)
  then show ?case
    using updateDecorations_grows [of tz now activeEditor s'] by auto
qed

lemma cycles_fib_grows:
  "cycles_fib s s' \<Longrightarrow>
   \<exists>ks cs. futureDecorationTypes s' = futureDecorationTypes s @ ks \<and> created s' = created s @ cs"
proof (induction rule: cycles_fib.induct)
  case (cycles_fib_refl s)
  then show ?case by simp
next
  case (cycles_fib_update s s' tz now activeEditor)
  then show ?case
    using updateDecorations_fib_grows [of tz now activeEditor s'] by auto
qed

lemma module_load_registry_ok: "registry_ok module_load" "registry_ok module_load_fib"
  by (simp_all add: registry_ok_def module_load_def module_load_fib_def)

lemma session_registry_ok: "session s \<or> session_fib s \<Longrightarrow> registry_ok s"
  using cycles_registry_ok cycles_fib_registry_ok module_load_registry_ok
  by (auto simp: session_def session_fib_def)

text \<open>What \<^verbatim>\<open>deactivate\<close> does.\<close>

lemma fold_dispose:
  "fold (\<lambda>(k, decorationType). dispose decorationType) xs s
     = s\<lparr>disposed := disposed s @ map snd xs\<rparr>"
  by (induction xs arbitrary: s) (auto simp: dispose_def split: prod.splits)

lemma deactivate_eq:
  "deactivate s =
     s\<lparr>disposed := disposed s @ pastDateDecorationType # map snd (futureDecorationTypes s),
       futureDecorationTypes := []\<rparr>"
  by (simp add: deactivate_def fold_dispose dispose_def Let_def)

lemma count_list_upt: "count_list [i..<j] h = (if i \<le> h \<and> h < j then 1 else 0)"
  by (induction j) auto

lemma map_of_append_Some: "map_of xs k = Some h \<Longrightarrow> map_of (xs @ ys) k = Some h"
  by (simp add: map_add_def)

lemma getOrCreate_after_growth:
  assumes "futureDecorationTypes s'
             = futureDecorationTypes (snd (getOrCreateDecorationType_with color tc k s)) @ ks"
  shows "getOrCreateDecorationType_with color tc k s'
           = (fst (getOrCreateDecorationType_with color tc k s), s')"
proof (cases rule: getOrCreate_cases [of k color tc s])
  case past
  then show ?thesis by (simp add: getOrCreate_nonPositive)
next
  case (found h)
  with assms have "map_of (futureDecorationTypes s') k = Some h"
    by (simp add: map_of_append_Some)
  with found show ?thesis
    by (simp add: getOrCreate_found)
next
  case new
  have a: "map_of (futureDecorationTypes s @ [(k, length (created s))]) k
             = Some (length (created s))"
    using new(2) by (simp add: map_add_def)
  have b: "futureDecorationTypes s'
             = (futureDecorationTypes s @ [(k, length (created s))]) @ ks"
    using assms by (simp add: new(3))
  have "map_of (futureDecorationTypes s') k = Some (length (created s))"
    unfolding b by (rule map_of_append_Some [OF a])
  with new show ?thesis
    by (simp add: getOrCreate_found)
qed

lemma registry_ok_one_handle_per_category:
  assumes "registry_ok s"
  shows "distinct (map fst (futureDecorationTypes s))"
    and "distinct (map snd (futureDecorationTypes s))"
    and "pastDateDecorationType \<notin> snd ` set (futureDecorationTypes s)"
    and "length (created s) = Suc (length (futureDecorationTypes s))"
proof -
  from assms have v: "map snd (futureDecorationTypes s) = [1..<length (created s)]"
    and ne: "created s \<noteq> []" and k: "distinct (map fst (futureDecorationTypes s))"
    by (simp_all add: registry_ok_def)
  show "distinct (map fst (futureDecorationTypes s))"
    by (rule k)
  show "distinct (map snd (futureDecorationTypes s))"
    by (simp add: v)
  have "set (map snd (futureDecorationTypes s)) = {1..<length (created s)}"
    by (simp add: v)
  then show "pastDateDecorationType \<notin> snd ` set (futureDecorationTypes s)"
    by (simp add: pastDateDecorationType_def)
  have "length (map snd (futureDecorationTypes s)) = length (created s) - 1"
    by (simp add: v)
  with ne show "length (created s) = Suc (length (futureDecorationTypes s))"
    by (cases "created s") simp_all
qed

lemma getOrCreate_keys_ok:
  "keys_ok s \<Longrightarrow> keys_ok (snd (getOrCreateDecorationType_with color tc k s))"
  by (cases rule: getOrCreate_cases [of k color tc s]) (simp_all add: keys_ok_def)

lemma applyDecorations_keys_ok:
  "keys_ok s \<Longrightarrow> keys_ok (applyDecorations (getOrCreateDecorationType_with color tc) dm s)"
proof (induction dm arbitrary: s)
  case Nil
  then show ?case by simp
next
  case (Cons e dm)
  obtain k decorations where e: "e = (k, decorations)"
    by (cases e)
  let ?s1 = "snd (getOrCreateDecorationType_with color tc k s)"
  let ?h = "fst (getOrCreateDecorationType_with color tc k s)"
  have "keys_ok ?s1"
    using Cons.prems by (rule getOrCreate_keys_ok)
  then have "keys_ok (setDecorations ?h decorations ?s1)"
    by (simp add: keys_ok_def)
  then show ?case
    unfolding e applyDecorations_Cons by (rule Cons.IH)
qed

lemma updateDecorations_keys_ok:
  assumes "keys_ok s"
  shows "keys_ok (updateDecorations tz now activeEditor s)"
proof (cases activeEditor)
  case None
  with assms show ?thesis by simp
next
  case (Some doc)
  from assms have "keys_ok (clearDecorations s)"
    by (simp add: keys_ok_def)
  then show ?thesis
    unfolding Some updateDecorations_unfold by (rule applyDecorations_keys_ok)
qed

lemma lifecycle_keys_ok: "lifecycle s s' \<Longrightarrow> keys_ok s \<Longrightarrow> keys_ok s'"
proof (induction rule: lifecycle.induct)
  case (lifecycle_refl s)
  then show ?case by simp
next
  case (lifecycle_update s s' tz now activeEditor)
  then show ?case by (simp add: updateDecorations_keys_ok)
next
  case (lifecycle_deactivate s s')
  then show ?case by (simp add: keys_ok_def deactivate_eq)
qed

lemma lifecycle_logs:
  "lifecycle s s' \<Longrightarrow> \<exists>cs ds. created s' = created s @ cs \<and> disposed s' = disposed s @ ds"
proof (induction rule: lifecycle.induct)
  case (lifecycle_refl s)
  then show ?case by simp
next
  case (lifecycle_update s s' tz now activeEditor)
  then show ?case
    using updateDecorations_grows [of tz now activeEditor s'] by auto
next
  case (lifecycle_deactivate s s')
  then show ?case by (auto simp: deactivate_eq)
qed

lemma keys_ok_module_load: "keys_ok module_load"
  by (simp add: keys_ok_def module_load_def)

text \<open>The same for \<^verbatim>\<open>context.subscriptions\<close>, and what a whole deactivation disposes.\<close>

lemma getOrCreate_subscriptions_ok:
  "subscriptions_ok s \<Longrightarrow> subscriptions_ok (snd (getOrCreateDecorationType_with color tc k s))"
  by (cases rule: getOrCreate_cases [of k color tc s]) (simp_all add: subscriptions_ok_def)

lemma applyDecorations_subscriptions_ok:
  "subscriptions_ok s \<Longrightarrow>
   subscriptions_ok (applyDecorations (getOrCreateDecorationType_with color tc) dm s)"
proof (induction dm arbitrary: s)
  case Nil
  then show ?case by simp
next
  case (Cons e dm)
  obtain k decorations where e: "e = (k, decorations)"
    by (cases e)
  let ?s1 = "snd (getOrCreateDecorationType_with color tc k s)"
  let ?h = "fst (getOrCreateDecorationType_with color tc k s)"
  have "subscriptions_ok ?s1"
    using Cons.prems by (rule getOrCreate_subscriptions_ok)
  then have "subscriptions_ok (setDecorations ?h decorations ?s1)"
    by (simp add: subscriptions_ok_def)
  then show ?case
    unfolding e applyDecorations_Cons by (rule Cons.IH)
qed

lemma updateDecorations_subscriptions_ok:
  assumes "subscriptions_ok s"
  shows "subscriptions_ok (updateDecorations tz now activeEditor s)"
    and "subscriptions_ok (updateDecorations_fib tz now activeEditor s)"
proof -
  from assms have c: "subscriptions_ok (clearDecorations s)"
    by (simp add: subscriptions_ok_def)
  show "subscriptions_ok (updateDecorations tz now activeEditor s)"
  proof (cases activeEditor)
    case None
    with assms show ?thesis by simp
  next
    case (Some doc)
    show ?thesis
      unfolding Some updateDecorations_unfold using c by (rule applyDecorations_subscriptions_ok)
  qed
  show "subscriptions_ok (updateDecorations_fib tz now activeEditor s)"
  proof (cases activeEditor)
    case None
    with assms show ?thesis by simp
  next
    case (Some doc)
    show ?thesis
      unfolding Some updateDecorations_fib_unfold using c
      by (rule applyDecorations_subscriptions_ok)
  qed
qed

lemma cycles_subscriptions_ok: "cycles s s' \<Longrightarrow> subscriptions_ok s \<Longrightarrow> subscriptions_ok s'"
  by (induction rule: cycles.induct) (simp_all add: updateDecorations_subscriptions_ok)

lemma cycles_fib_subscriptions_ok:
  "cycles_fib s s' \<Longrightarrow> subscriptions_ok s \<Longrightarrow> subscriptions_ok s'"
  by (induction rule: cycles_fib.induct) (simp_all add: updateDecorations_subscriptions_ok)

lemma session_subscriptions_ok: "session s \<or> session_fib s \<Longrightarrow> subscriptions_ok s"
proof -
  have "subscriptions_ok module_load" "subscriptions_ok module_load_fib"
    by (simp_all add: subscriptions_ok_def module_load_def module_load_fib_def)
  then show "session s \<or> session_fib s \<Longrightarrow> subscriptions_ok s"
    using cycles_subscriptions_ok cycles_fib_subscriptions_ok
    by (auto simp: session_def session_fib_def)
qed

lemma fold_dispose_list: "fold dispose hs s = s\<lparr>disposed := disposed s @ hs\<rparr>"
  by (induction hs arbitrary: s) (simp_all add: dispose_def)

lemma deactivation_eq:
  "deactivation s =
     s\<lparr>disposed := disposed s @ pastDateDecorationType # map snd (futureDecorationTypes s)
          @ subscriptions s,
       futureDecorationTypes := []\<rparr>"
  by (simp add: deactivation_def disposeSubscriptions_def fold_dispose_list deactivate_eq)

lemma session_deactivation_disposed:
  assumes "session s \<or> session_fib s"
  shows "disposed (deactivation s) = 0 # [1..<length (created s)] @ [1..<length (created s)]"
proof -
  from assms have "registry_ok s" and "subscriptions_ok s"
    by (rule session_registry_ok, rule session_subscriptions_ok)
  then show ?thesis
    by (simp add: deactivation_eq registry_ok_def subscriptions_ok_def pastDateDecorationType_def)
qed

text \<open>
  Claim C7 says that teardown disposes no style handle more than once. \<^verbatim>\<open>deactivate\<close>
  disposes every decoration type of the map, and each of them was also pushed to
  \<^verbatim>\<open>context.subscriptions\<close> when it was created (line 68, \<^verbatim>\<open>part_000\<close> line 132), which the
  host disposes at deactivation: after one update cycle on the text \<^verbatim>\<open>2024-08-05\<close> the
  decoration type 1 is disposed once by \<^verbatim>\<open>deactivate\<close> and twice by the whole deactivation.
\<close>

theorem deactivation_disposes_registry_handles_twice:
  "subscriptions (updateDecorations 0 1718409600000 (Some (js ''2024-08-05'')) module_load) = [1] \<and>
   count_list
     (disposed (deactivate (updateDecorations 0 1718409600000 (Some (js ''2024-08-05'')) module_load)))
     1 = 1 \<and>
   count_list
     (disposed (deactivation (updateDecorations 0 1718409600000 (Some (js ''2024-08-05'')) module_load)))
     1 = 2"
proof (intro conjI)
  show "subscriptions (updateDecorations 0 1718409600000 (Some (js ''2024-08-05'')) module_load) = [1]"
    by code_simp
  show "count_list
     (disposed (deactivate (updateDecorations 0 1718409600000 (Some (js ''2024-08-05'')) module_load)))
     1 = 1"
    by code_simp
  show "count_list
     (disposed (deactivation (updateDecorations 0 1718409600000 (Some (js ''2024-08-05'')) module_load)))
     1 = 2"
    by code_simp
qed

text \<open>
  Claim C7 as amended. In a session of either revision (module load followed by any update
  cycles), \<^verbatim>\<open>deactivate\<close> itself calls \<^verbatim>\<open>dispose()\<close> exactly once on every decoration type
  created so far, the past one included, and on nothing else, and leaves
  \<^verbatim>\<open>futureDecorationTypes\<close> empty. Over the whole deactivation, with the host's disposal of
  \<^verbatim>\<open>context.subscriptions\<close>, every decoration type created so far is disposed (none is
  leaked), nothing else is, the past decoration type is disposed exactly once, and the map
  is empty.
\<close>

theorem deactivation_releases_every_handle:
  "session s \<or> session_fib s \<Longrightarrow>
   futureDecorationTypes (deactivate s) = [] \<and>
   (\<forall>h. h < length (created s) \<longrightarrow> count_list (disposed (deactivate s)) h = 1) \<and>
   (\<forall>h. length (created s) \<le> h \<longrightarrow> count_list (disposed (deactivate s)) h = 0) \<and>
   futureDecorationTypes (deactivation s) = [] \<and>
   (\<forall>h. h < length (created s) \<longrightarrow> 1 \<le> count_list (disposed (deactivation s)) h) \<and>
   (\<forall>h. length (created s) \<le> h \<longrightarrow> count_list (disposed (deactivation s)) h = 0) \<and>
   count_list (disposed (deactivation s)) pastDateDecorationType = 1"
proof -
  assume run: "session s \<or> session_fib s"
  then have ok: "registry_ok s"
    by (rule session_registry_ok)
  then have d: "disposed (deactivate s) = 0 # [1..<length (created s)]"
    by (simp add: deactivate_eq registry_ok_def pastDateDecorationType_def)
  have d': "disposed (deactivation s) = 0 # [1..<length (created s)] @ [1..<length (created s)]"
    using run by (rule session_deactivation_disposed)
  from ok have "created s \<noteq> []"
    by (simp add: registry_ok_def)
  then have pos: "0 < length (created s)"
    by simp
  have 1: "futureDecorationTypes (deactivate s) = []"
    by (simp add: deactivate_eq)
  have 2: "\<forall>h. h < length (created s) \<longrightarrow> count_list (disposed (deactivate s)) h = 1"
    by (simp add: d count_list_upt)
  have 3: "\<forall>h. length (created s) \<le> h \<longrightarrow> count_list (disposed (deactivate s)) h = 0"
  proof (intro allI impI)
    fix h
    assume far: "length (created s) \<le> h"
    with pos have "0 < h"
      by linarith
    with far show "count_list (disposed (deactivate s)) h = 0"
      by (simp add: d count_list_upt)
  qed
  have 4: "futureDecorationTypes (deactivation s) = []"
    by (simp add: deactivation_eq)
  have 5: "\<forall>h. h < length (created s) \<longrightarrow> 1 \<le> count_list (disposed (deactivation s)) h"
    by (simp add: d' count_list_upt)
  have 6: "\<forall>h. length (created s) \<le> h \<longrightarrow> count_list (disposed (deactivation s)) h = 0"
  proof (intro allI impI)
    fix h
    assume far: "length (created s) \<le> h"
    with pos have "0 < h"
      by linarith
    with far show "count_list (disposed (deactivation s)) h = 0"
      by (simp add: d' count_list_upt)
  qed
  have 7: "count_list (disposed (deactivation s)) pastDateDecorationType = 1"
    by (simp add: d' count_list_upt pastDateDecorationType_def)
  from 1 2 3 4 5 6 7 show ?thesis
    by (intro conjI)
qed

theorem deactivation_releases_every_handle_witness:
  "session (updateDecorations 0 1718409600000 (Some (js ''2024-08-05'')) module_load) \<and>
   futureDecorationTypes
     (deactivation (updateDecorations 0 1718409600000 (Some (js ''2024-08-05'')) module_load)) = [] \<and>
   count_list
     (disposed (deactivate (updateDecorations 0 1718409600000 (Some (js ''2024-08-05'')) module_load)))
     1 = 1 \<and>
   1 \<le> count_list
     (disposed (deactivation (updateDecorations 0 1718409600000 (Some (js ''2024-08-05'')) module_load)))
     1"
proof -
  let ?s = "updateDecorations 0 1718409600000 (Some (js ''2024-08-05'')) module_load"
  have s: "session ?s"
    unfolding session_def by (rule cycles_update [OF cycles_refl])
  have "length (created ?s) = 2"
    by code_simp
  then have len: "1 < length (created ?s)"
    by simp
  note t = deactivation_releases_every_handle [OF disjI1 [OF s]]
  from t have a: "futureDecorationTypes (deactivation ?s) = []"
    by (elim conjE)
  from t have "\<forall>h. h < length (created ?s) \<longrightarrow> count_list (disposed (deactivate ?s)) h = 1"
    by (elim conjE)
  then have "1 < length (created ?s) \<longrightarrow> count_list (disposed (deactivate ?s)) 1 = 1"
    by (rule spec)
  with len have b: "count_list (disposed (deactivate ?s)) 1 = 1"
    by (rule rev_mp)
  from t have "\<forall>h. h < length (created ?s) \<longrightarrow> 1 \<le> count_list (disposed (deactivation ?s)) h"
    by (elim conjE)
  then have "1 < length (created ?s) \<longrightarrow> 1 \<le> count_list (disposed (deactivation ?s)) 1"
    by (rule spec)
  with len have c: "1 \<le> count_list (disposed (deactivation ?s)) 1"
    by (rule rev_mp)
  from s a b c show ?thesis
    by (intro conjI)
qed

text \<open>
  Claim C8. In both revisions: a second \<^verbatim>\<open>getOrCreateDecorationType\<close> for the same category
  returns the same decoration type and leaves the state as it is (nothing is created),
  directly after the first request, after any other requests of the same update cycle, and
  after any number of further update cycles. In a session the keys of the map are distinct,
  its values are distinct and none is the past decoration type, and every decoration type
  created besides the past one is the value of one key. Update cycles only append to the
  map; \<^verbatim>\<open>deactivate\<close> empties it.
\<close>

theorem style_handle_reuse:
  "getOrCreateDecorationType c (snd (getOrCreateDecorationType c s)) = getOrCreateDecorationType c s \<and>
   getOrCreateDecorationType_fib c (snd (getOrCreateDecorationType_fib c s))
     = getOrCreateDecorationType_fib c s \<and>
   getOrCreateDecorationType c
       (applyDecorations getOrCreateDecorationType dm (snd (getOrCreateDecorationType c s)))
     = (fst (getOrCreateDecorationType c s),
        applyDecorations getOrCreateDecorationType dm (snd (getOrCreateDecorationType c s))) \<and>
   getOrCreateDecorationType_fib c
       (applyDecorations getOrCreateDecorationType_fib dm (snd (getOrCreateDecorationType_fib c s)))
     = (fst (getOrCreateDecorationType_fib c s),
        applyDecorations getOrCreateDecorationType_fib dm (snd (getOrCreateDecorationType_fib c s))) \<and>
   (cycles (snd (getOrCreateDecorationType c s)) s' \<longrightarrow>
      getOrCreateDecorationType c s' = (fst (getOrCreateDecorationType c s), s')) \<and>
   (cycles_fib (snd (getOrCreateDecorationType_fib c s)) s' \<longrightarrow>
      getOrCreateDecorationType_fib c s' = (fst (getOrCreateDecorationType_fib c s), s')) \<and>
   (session s \<or> session_fib s \<longrightarrow>
      distinct (map fst (futureDecorationTypes s)) \<and>
      distinct (map snd (futureDecorationTypes s)) \<and>
      pastDateDecorationType \<notin> snd ` set (futureDecorationTypes s) \<and>
      length (created s) = Suc (length (futureDecorationTypes s))) \<and>
   (cycles s s' \<or> cycles_fib s s' \<longrightarrow>
      (\<exists>ks. futureDecorationTypes s' = futureDecorationTypes s @ ks)) \<and>
   futureDecorationTypes (deactivate s) = []"
proof (intro conjI impI)
  show "getOrCreateDecorationType c (snd (getOrCreateDecorationType c s))
          = getOrCreateDecorationType c s"
    unfolding getOrCreateDecorationType_def by (rule getOrCreate_twice)
  show "getOrCreateDecorationType_fib c (snd (getOrCreateDecorationType_fib c s))
          = getOrCreateDecorationType_fib c s"
    unfolding getOrCreateDecorationType_fib_def by (rule getOrCreate_twice)
  show "getOrCreateDecorationType c
       (applyDecorations getOrCreateDecorationType dm (snd (getOrCreateDecorationType c s)))
     = (fst (getOrCreateDecorationType c s),
        applyDecorations getOrCreateDecorationType dm (snd (getOrCreateDecorationType c s)))"
    unfolding getOrCreateDecorationType_def
    using applyDecorations_grows [of calculateColor "''white''" dm]
    by (meson getOrCreate_after_growth)
  show "getOrCreateDecorationType_fib c
       (applyDecorations getOrCreateDecorationType_fib dm (snd (getOrCreateDecorationType_fib c s)))
     = (fst (getOrCreateDecorationType_fib c s),
        applyDecorations getOrCreateDecorationType_fib dm (snd (getOrCreateDecorationType_fib c s)))"
    unfolding getOrCreateDecorationType_fib_def
    using applyDecorations_grows [of calculateColor_fib TEXT_COLOR dm]
    by (meson getOrCreate_after_growth)
  show "getOrCreateDecorationType c s' = (fst (getOrCreateDecorationType c s), s')"
    if "cycles (snd (getOrCreateDecorationType c s)) s'"
    using cycles_grows [OF that] unfolding getOrCreateDecorationType_def
    by (meson getOrCreate_after_growth)
  show "getOrCreateDecorationType_fib c s' = (fst (getOrCreateDecorationType_fib c s), s')"
    if "cycles_fib (snd (getOrCreateDecorationType_fib c s)) s'"
    using cycles_fib_grows [OF that] unfolding getOrCreateDecorationType_fib_def
    by (meson getOrCreate_after_growth)
  show "distinct (map fst (futureDecorationTypes s))" if "session s \<or> session_fib s"
    using registry_ok_one_handle_per_category(1) [OF session_registry_ok [OF that]] .
  show "distinct (map snd (futureDecorationTypes s))" if "session s \<or> session_fib s"
    using registry_ok_one_handle_per_category(2) [OF session_registry_ok [OF that]] .
  show "pastDateDecorationType \<notin> snd ` set (futureDecorationTypes s)"
    if "session s \<or> session_fib s"
    using registry_ok_one_handle_per_category(3) [OF session_registry_ok [OF that]] .
  show "length (created s) = Suc (length (futureDecorationTypes s))"
    if "session s \<or> session_fib s"
    using registry_ok_one_handle_per_category(4) [OF session_registry_ok [OF that]] .
  show "\<exists>ks. futureDecorationTypes s' = futureDecorationTypes s @ ks"
    if "cycles s s' \<or> cycles_fib s s'"
    using that cycles_grows [of s s'] cycles_fib_grows [of s s'] by blast
  show "futureDecorationTypes (deactivate s) = []"
    by (simp add: deactivate_eq)
qed

theorem style_handle_reuse_witness:
  "cycles (snd (getOrCreateDecorationType (Num 3) module_load))
     (snd (getOrCreateDecorationType (Num 3) module_load)) \<and>
   getOrCreateDecorationType (Num 3) (snd (getOrCreateDecorationType (Num 3) module_load))
     = (fst (getOrCreateDecorationType (Num 3) module_load),
        snd (getOrCreateDecorationType (Num 3) module_load)) \<and>
   cycles_fib (snd (getOrCreateDecorationType_fib (Num 3) module_load_fib))
     (snd (getOrCreateDecorationType_fib (Num 3) module_load_fib)) \<and>
   getOrCreateDecorationType_fib (Num 3) (snd (getOrCreateDecorationType_fib (Num 3) module_load_fib))
     = (fst (getOrCreateDecorationType_fib (Num 3) module_load_fib),
        snd (getOrCreateDecorationType_fib (Num 3) module_load_fib)) \<and>
   session module_load \<and>
   length (created module_load) = Suc (length (futureDecorationTypes module_load)) \<and>
   cycles module_load (updateDecorations 0 1718409600000 (Some (js ''2024-08-05'')) module_load) \<and>
   (\<exists>ks. futureDecorationTypes
           (updateDecorations 0 1718409600000 (Some (js ''2024-08-05'')) module_load)
         = futureDecorationTypes module_load @ ks)"
proof -
  let ?s1 = "snd (getOrCreateDecorationType (Num 3) module_load)"
  let ?f1 = "snd (getOrCreateDecorationType_fib (Num 3) module_load_fib)"
  let ?u = "updateDecorations 0 1718409600000 (Some (js ''2024-08-05'')) module_load"
  have c1: "cycles ?s1 ?s1"
    by (rule cycles_refl)
  have c2: "cycles_fib ?f1 ?f1"
    by (rule cycles_fib_refl)
  have c3: "session module_load"
    unfolding session_def by (rule cycles_refl)
  have c4: "cycles module_load ?u"
    by (rule cycles_update [OF cycles_refl])
  from style_handle_reuse [of "Num 3" module_load "[]" ?s1] c1
  have r1: "getOrCreateDecorationType (Num 3) ?s1
              = (fst (getOrCreateDecorationType (Num 3) module_load), ?s1)"
    by blast
  from style_handle_reuse [of "Num 3" module_load_fib "[]" ?f1] c2
  have r2: "getOrCreateDecorationType_fib (Num 3) ?f1
              = (fst (getOrCreateDecorationType_fib (Num 3) module_load_fib), ?f1)"
    by blast
  from style_handle_reuse [of "Num 3" module_load "[]" ?u] c3 c4
  have r3: "length (created module_load) = Suc (length (futureDecorationTypes module_load))"
    and r4: "\<exists>ks. futureDecorationTypes ?u = futureDecorationTypes module_load @ ks"
    by blast+
  from c1 c2 c3 c4 r1 r2 r3 r4 show ?thesis
    by blast
qed

text \<open>
  The past decoration type over a lifecycle of \<^verbatim>\<open>src/src/extension.ts\<close>: it is the one that
  module load created; no key of \<^verbatim>\<open>futureDecorationTypes\<close> is \<open>\<le> 0\<close>; for a distance \<open>\<le> 0\<close>
  the lookup returns the past decoration type and changes nothing. After \<^verbatim>\<open>deactivate\<close>,
  whatever follows, the past decoration type is disposed, no later creation yields it
  again, and the lookup still returns it.
\<close>

lemma past_handle_is_one_module_level_handle:
  "lifecycle module_load s \<Longrightarrow>
   pastDateDecorationType < length (created module_load) \<and>
   created s ! pastDateDecorationType = created module_load ! pastDateDecorationType \<and>
   (\<forall>k \<in> fst ` set (futureDecorationTypes s). \<not> nonPositive k) \<and>
   (\<forall>d. nonPositive d \<longrightarrow> getOrCreateDecorationType d s = (pastDateDecorationType, s)) \<and>
   (\<forall>d decorations. nonPositive d \<longrightarrow>
      applyDecorations getOrCreateDecorationType [(d, decorations)] s
        = setDecorations pastDateDecorationType decorations s) \<and>
   (\<forall>s'. lifecycle (deactivate s) s' \<longrightarrow>
      pastDateDecorationType \<in> set (disposed s') \<and>
      (\<forall>bg fg. fst (createTextEditorDecorationType bg fg s') \<noteq> pastDateDecorationType) \<and>
      (\<forall>d. nonPositive d \<longrightarrow> getOrCreateDecorationType d s' = (pastDateDecorationType, s')))"
proof (intro conjI allI impI ballI)
  assume run: "lifecycle module_load s"
  have past: "getOrCreateDecorationType d t = (pastDateDecorationType, t)" if "nonPositive d" for d t
    using that by (simp add: getOrCreateDecorationType_def getOrCreate_nonPositive)
  show 1: "pastDateDecorationType < length (created module_load)"
    by (simp add: pastDateDecorationType_def module_load_def)
  obtain cs where cs: "created s = created module_load @ cs"
    using lifecycle_logs [OF run] by blast
  show "created s ! pastDateDecorationType = created module_load ! pastDateDecorationType"
    using 1 by (simp add: cs nth_append)
  have ok: "keys_ok s"
    using run keys_ok_module_load by (rule lifecycle_keys_ok)
  show "\<not> nonPositive k" if "k \<in> fst ` set (futureDecorationTypes s)" for k
    using ok that by (auto simp: keys_ok_def list_all_iff)
  show "getOrCreateDecorationType d s = (pastDateDecorationType, s)" if "nonPositive d" for d
    using that by (rule past)
  show "applyDecorations getOrCreateDecorationType [(d, decorations)] s
        = setDecorations pastDateDecorationType decorations s" if "nonPositive d" for d decorations
    by (simp add: past [OF that])
  show "pastDateDecorationType \<in> set (disposed s')" if after: "lifecycle (deactivate s) s'" for s'
  proof -
    obtain ds' where "disposed s' = disposed (deactivate s) @ ds'"
      using lifecycle_logs [OF after] by blast
    then show ?thesis
      by (simp add: deactivate_eq)
  qed
  show "fst (createTextEditorDecorationType bg fg s') \<noteq> pastDateDecorationType"
    if after: "lifecycle (deactivate s) s'" for s' bg fg
  proof -
    obtain cs' where "created s' = created (deactivate s) @ cs'"
      using lifecycle_logs [OF after] by blast
    with ok have "created s' \<noteq> []"
      by (simp add: deactivate_eq keys_ok_def)
    then show ?thesis
      by (simp add: createTextEditorDecorationType_def pastDateDecorationType_def)
  qed
  show "getOrCreateDecorationType d s' = (pastDateDecorationType, s')"
    if "lifecycle (deactivate s) s'" "nonPositive d" for s' d
    using that(2) by (rule past)
qed

lemma past_handle_is_one_module_level_handle_example:
  "lifecycle module_load module_load \<and>
   nonPositive (Num (- 3)) \<and>
   getOrCreateDecorationType (Num (- 3)) module_load = (pastDateDecorationType, module_load) \<and>
   lifecycle (deactivate module_load)
     (updateDecorations 0 1718409600000 (Some (js ''2024-01-01'')) (deactivate module_load)) \<and>
   pastDateDecorationType \<in> set (disposed
     (updateDecorations 0 1718409600000 (Some (js ''2024-01-01'')) (deactivate module_load)))"
proof -
  let ?s' = "updateDecorations 0 1718409600000 (Some (js ''2024-01-01'')) (deactivate module_load)"
  have a: "lifecycle module_load module_load"
    by (rule lifecycle_refl)
  have b: "nonPositive (Num (- 3))"
    by simp
  have c: "lifecycle (deactivate module_load) ?s'"
    by (rule lifecycle_update [OF lifecycle_refl])
  note t = past_handle_is_one_module_level_handle [OF a]
  from t have "\<forall>d. nonPositive d \<longrightarrow>
      getOrCreateDecorationType d module_load = (pastDateDecorationType, module_load)"
    by (elim conjE)
  then have "nonPositive (Num (- 3)) \<longrightarrow>
      getOrCreateDecorationType (Num (- 3)) module_load = (pastDateDecorationType, module_load)"
    by (rule spec)
  with b have d: "getOrCreateDecorationType (Num (- 3)) module_load
      = (pastDateDecorationType, module_load)"
    by (rule rev_mp)
  from t have "\<forall>s'. lifecycle (deactivate module_load) s' \<longrightarrow>
      pastDateDecorationType \<in> set (disposed s') \<and>
      (\<forall>bg fg. fst (createTextEditorDecorationType bg fg s') \<noteq> pastDateDecorationType) \<and>
      (\<forall>d. nonPositive d \<longrightarrow> getOrCreateDecorationType d s' = (pastDateDecorationType, s'))"
    by (elim conjE)
  then have "lifecycle (deactivate module_load) ?s' \<longrightarrow>
      pastDateDecorationType \<in> set (disposed ?s') \<and>
      (\<forall>bg fg. fst (createTextEditorDecorationType bg fg ?s') \<noteq> pastDateDecorationType) \<and>
      (\<forall>d. nonPositive d \<longrightarrow> getOrCreateDecorationType d ?s' = (pastDateDecorationType, ?s'))"
    by (rule spec)
  with c have "pastDateDecorationType \<in> set (disposed ?s') \<and>
      (\<forall>bg fg. fst (createTextEditorDecorationType bg fg ?s') \<noteq> pastDateDecorationType) \<and>
      (\<forall>d. nonPositive d \<longrightarrow> getOrCreateDecorationType d ?s' = (pastDateDecorationType, ?s'))"
    by (rule rev_mp)
  then have e: "pastDateDecorationType \<in> set (disposed ?s')"
    by (rule conjunct1)
  from a b c d e show ?thesis
    by (intro conjI)
qed

text \<open>
  Claim C10 says that every date of a distance \<open>\<le> 0\<close> is styled, in every update cycle,
  through the one past decoration type. \<^verbatim>\<open>src/src/extension.ts\<close> groups the matches by
  their raw distance and calls \<^verbatim>\<open>setDecorations\<close> once per group, and \<^verbatim>\<open>setDecorations\<close>
  replaces the ranges of a decoration type: with today 15 June 2024 and the text
  \<^verbatim>\<open>2024-06-10 2024-06-12\<close> the groups -5 and -3 both go to the past decoration type, no
  other decoration type exists, and only the second date is left styled. \<^verbatim>\<open>part_000\<close>
  buckets before it groups and styles both dates.
\<close>

theorem updateDecorations_overwrites_past_group:
  "whileExec dateRegex
     (updateDecorations_body (setHours0 0 (MakeDay 2024 6 15 * msPerDay))
        (js ''2024-06-10 2024-06-12''))
     (js ''2024-06-10 2024-06-12'') 0 []
     = [(Num (- 5), [(0, 10)]), (Num (- 3), [(11, 21)])] \<and>
   created
     (updateDecorations 0 (MakeDay 2024 6 15 * msPerDay) (Some (js ''2024-06-10 2024-06-12''))
        module_load) = created module_load \<and>
   rendered
     (updateDecorations 0 (MakeDay 2024 6 15 * msPerDay) (Some (js ''2024-06-10 2024-06-12''))
        module_load) pastDateDecorationType = [(11, 21)] \<and>
   rendered
     (updateDecorations_fib 0 (MakeDay 2024 6 15 * msPerDay) (Some (js ''2024-06-10 2024-06-12''))
        module_load_fib) pastDateDecorationType = [(0, 11), (10, 21)]"
proof (intro conjI)
  show "whileExec dateRegex
     (updateDecorations_body (setHours0 0 (MakeDay 2024 6 15 * msPerDay))
        (js ''2024-06-10 2024-06-12''))
     (js ''2024-06-10 2024-06-12'') 0 []
     = [(Num (- 5), [(0, 10)]), (Num (- 3), [(11, 21)])]"
    by code_simp
  show "created
     (updateDecorations 0 (MakeDay 2024 6 15 * msPerDay) (Some (js ''2024-06-10 2024-06-12''))
        module_load) = created module_load"
    by code_simp
  show "rendered
     (updateDecorations 0 (MakeDay 2024 6 15 * msPerDay) (Some (js ''2024-06-10 2024-06-12''))
        module_load) pastDateDecorationType = [(11, 21)]"
    by code_simp
  show "rendered
     (updateDecorations_fib 0 (MakeDay 2024 6 15 * msPerDay) (Some (js ''2024-06-10 2024-06-12''))
        module_load_fib) pastDateDecorationType = [(0, 11), (10, 21)]"
    by code_simp
qed

section \<open>Linear buckets\<close>

lemma colours_ok_cong:
  "futureDecorationTypes s' = futureDecorationTypes s \<Longrightarrow> created s' = created s \<Longrightarrow>
   colours_ok color tc s' = colours_ok color tc s"
  by (simp add: colours_ok_def)

lemma getOrCreate_colours_ok:
  assumes "colours_ok color tc s"
  shows "colours_ok color tc (snd (getOrCreateDecorationType_with color tc k s))"
proof (cases rule: getOrCreate_cases [of k color tc s])
  case past
  with assms show ?thesis by simp
next
  case (found h)
  with assms show ?thesis by simp
next
  case new
  from assms have "list_all (\<lambda>(k', h). h < Suc (length (created s))
      \<and> (created s @ [(color k, tc)]) ! h = (color k', tc)) (futureDecorationTypes s)"
    by (auto simp: colours_ok_def list_all_iff nth_append)
  then show ?thesis
    by (simp add: new(3) colours_ok_def)
qed

lemma applyDecorations_colours_ok:
  "colours_ok color tc s \<Longrightarrow>
   colours_ok color tc (applyDecorations (getOrCreateDecorationType_with color tc) dm s)"
proof (induction dm arbitrary: s)
  case Nil
  then show ?case by simp
next
  case (Cons e dm)
  obtain k decorations where e: "e = (k, decorations)"
    by (cases e)
  let ?s1 = "snd (getOrCreateDecorationType_with color tc k s)"
  let ?h = "fst (getOrCreateDecorationType_with color tc k s)"
  have "colours_ok color tc ?s1"
    using Cons.prems by (rule getOrCreate_colours_ok)
  then have "colours_ok color tc (setDecorations ?h decorations ?s1)"
    by (simp add: colours_ok_cong [of "setDecorations ?h decorations ?s1" ?s1])
  then show ?case
    unfolding e applyDecorations_Cons by (rule Cons.IH)
qed

lemma updateDecorations_colours_ok:
  assumes "colours_ok calculateColor ''white'' s"
  shows "colours_ok calculateColor ''white'' (updateDecorations tz now activeEditor s)"
proof (cases activeEditor)
  case None
  with assms show ?thesis by simp
next
  case (Some doc)
  from assms have "colours_ok calculateColor ''white'' (clearDecorations s)"
    by (simp add: colours_ok_cong [of "clearDecorations s" s])
  then show ?thesis
    unfolding Some updateDecorations_unfold by (rule applyDecorations_colours_ok)
qed

lemma cycles_colours_ok:
  "cycles s s' \<Longrightarrow> colours_ok calculateColor ''white'' s \<Longrightarrow>
   colours_ok calculateColor ''white'' s'"
  by (induction rule: cycles.induct) (simp_all add: updateDecorations_colours_ok)

lemma session_colours_ok: "session s \<Longrightarrow> colours_ok calculateColor ''white'' s"
  unfolding session_def
  by (erule cycles_colours_ok) (simp add: colours_ok_def module_load_def)

lemma pushDecoration_map_fst:
  "map fst (pushDecoration k decoration dm)
     = (if map_of dm k = None then map fst dm @ [k] else map fst dm)"
proof -
  have keep: "map fst (map (\<lambda>(k', decorations).
      if k' = k then (k', decorations @ [decoration]) else (k', decorations)) xs) = map fst xs"
    for xs :: decorationsMap
    by (induction xs) auto
  show ?thesis
    unfolding pushDecoration_def Let_def keep by simp
qed

lemma pushDecoration_keys:
  "fst ` set (pushDecoration k decoration dm) = insert k (fst ` set dm)"
proof -
  have "fst ` set (pushDecoration k decoration dm) = set (map fst (pushDecoration k decoration dm))"
    by simp
  also have "\<dots> = insert k (fst ` set dm)"
  proof (cases "map_of dm k")
    case None
    then show ?thesis
      unfolding pushDecoration_map_fst by simp
  next
    case (Some ds)
    then have "(k, ds) \<in> set dm"
      by (rule map_of_SomeD)
    then have "k \<in> fst ` set dm"
      by force
    with Some show ?thesis
      unfolding pushDecoration_map_fst by auto
  qed
  finally show ?thesis .
qed

lemma distinct_snd_same_key:
  "distinct (map snd xs) \<Longrightarrow> (a, h) \<in> set xs \<Longrightarrow> (b, h) \<in> set xs \<Longrightarrow> a = b"
  by (induction xs) (auto simp: image_iff)

lemma calculateColor_ends:
  "d \<le> 0 \<Longrightarrow> calculateColor (Num d) = ''rgb(255, 0, 0)''"
  "50 \<le> d \<Longrightarrow> calculateColor (Num d) = ''rgb(0, 0, 255)''"
  by simp_all

text \<open>
  Claim C4 says that in \<^verbatim>\<open>src/src/extension.ts\<close> a distance above 50 collapses to the
  category 50. The key under which a date is grouped and its decoration type is stored is
  the distance itself: with today 15 June 2024, the dates 5 and 6 August 2024 are 51 and 52
  days away and get the keys 51 and 52, each with a decoration type of its own.
\<close>

theorem linear_category_is_not_capped:
  "whileExec dateRegex
     (updateDecorations_body (setHours0 0 (MakeDay 2024 6 15 * msPerDay))
        (js ''2024-08-05 2024-08-06''))
     (js ''2024-08-05 2024-08-06'') 0 []
     = [(Num 51, [(0, 10)]), (Num 52, [(11, 21)])] \<and>
   futureDecorationTypes
     (updateDecorations 0 (MakeDay 2024 6 15 * msPerDay) (Some (js ''2024-08-05 2024-08-06''))
        module_load) = [(Num 51, 1), (Num 52, 2)]"
proof (intro conjI)
  show "whileExec dateRegex
     (updateDecorations_body (setHours0 0 (MakeDay 2024 6 15 * msPerDay))
        (js ''2024-08-05 2024-08-06''))
     (js ''2024-08-05 2024-08-06'') 0 []
     = [(Num 51, [(0, 10)]), (Num 52, [(11, 21)])]"
    by code_simp
  show "futureDecorationTypes
     (updateDecorations 0 (MakeDay 2024 6 15 * msPerDay) (Some (js ''2024-08-05 2024-08-06''))
        module_load) = [(Num 51, 1), (Num 52, 2)]"
    by code_simp
qed

text \<open>
  Claim C4 as amended. In \<^verbatim>\<open>src/src/extension.ts\<close> the category of a date is its signed
  calendar-day distance itself, without a cap: the loop body files a match of a distance
  \<open>d > 0\<close> under the key \<open>d\<close> = \<^verbatim>\<open>Math.ceil(diffTime / msPerDay)\<close>, and the lookup for \<open>d\<close>
  ends with a map entry of the key \<open>d\<close>, also above 50. What collapses is the style: a distance \<open>\<le> 0\<close> is
  given the one past decoration type, of the colour \<^verbatim>\<open>rgb(255, 0, 0)\<close>, and stores no key; a
  distance \<open>\<ge> 50\<close> has the colour \<^verbatim>\<open>rgb(0, 0, 255)\<close>. In a session every key of the map is a
  distance \<open>> 0\<close> whose decoration type was created with the colour of that distance and
  is shared with no other distance.
\<close>

theorem linear_category_is_the_distance:
  "(newDate (matched text index) = Num t \<and>
    0 < \<lceil>(of_int (t - today) :: rat) / of_int msPerDay\<rceil> \<longrightarrow>
      fst ` set (updateDecorations_body today text index dm)
        = insert (Num \<lceil>(of_int (t - today) :: rat) / of_int msPerDay\<rceil>) (fst ` set dm)) \<and>
   (d \<le> 0 \<longrightarrow>
      getOrCreateDecorationType (Num d) s = (pastDateDecorationType, s) \<and>
      calculateColor (Num d) = ''rgb(255, 0, 0)'') \<and>
   (0 < d \<longrightarrow>
      map_of (futureDecorationTypes (snd (getOrCreateDecorationType (Num d) s))) (Num d)
        = Some (fst (getOrCreateDecorationType (Num d) s))) \<and>
   (50 \<le> d \<longrightarrow> calculateColor (Num d) = ''rgb(0, 0, 255)'') \<and>
   (session s \<longrightarrow>
      (\<forall>d h. (Num d, h) \<in> set (futureDecorationTypes s) \<longrightarrow>
         0 < d \<and> h \<noteq> pastDateDecorationType \<and>
         created s ! h = (calculateColor (Num d), ''white'') \<and>
         (\<forall>d' h'. (Num d', h') \<in> set (futureDecorationTypes s) \<and> d' \<noteq> d \<longrightarrow> h' \<noteq> h)))"
proof (intro conjI impI allI)
  show "fst ` set (updateDecorations_body today text index dm)
        = insert (Num \<lceil>(of_int (t - today) :: rat) / of_int msPerDay\<rceil>) (fst ` set dm)"
    if "newDate (matched text index) = Num t \<and>
      0 < \<lceil>(of_int (t - today) :: rat) / of_int msPerDay\<rceil>"
    using that by (simp add: updateDecorations_body_def Let_def pushDecoration_keys)
  show "getOrCreateDecorationType (Num d) s = (pastDateDecorationType, s)" if "d \<le> 0"
    using that by (simp add: getOrCreateDecorationType_def getOrCreate_nonPositive)
  show "calculateColor (Num d) = ''rgb(255, 0, 0)''" if "d \<le> 0"
    using that by (rule calculateColor_ends)
  show "map_of (futureDecorationTypes (snd (getOrCreateDecorationType (Num d) s))) (Num d)
        = Some (fst (getOrCreateDecorationType (Num d) s))" if "0 < d"
    unfolding getOrCreateDecorationType_def
    using that
    by (cases rule: getOrCreate_cases [of "Num d" calculateColor "''white''" s])
      (simp_all add: map_add_def)
  show "calculateColor (Num d) = ''rgb(0, 0, 255)''" if "50 \<le> d"
    using that by (rule calculateColor_ends)
next
  fix d h
  assume s: "session s" and mem: "(Num d, h) \<in> set (futureDecorationTypes s)"
  have ok: "registry_ok s"
    using s by (simp add: session_registry_ok)
  from ok mem have "\<not> nonPositive (Num d)"
    by (auto simp: registry_ok_def list_all_iff)
  then show "0 < d"
    by simp
  from mem have "h \<in> snd ` set (futureDecorationTypes s)"
    by (metis image_eqI snd_conv)
  then show "h \<noteq> pastDateDecorationType"
    using registry_ok_one_handle_per_category(3) [OF ok] by blast
  from session_colours_ok [OF s] mem
  show "created s ! h = (calculateColor (Num d), ''white'')"
    by (auto simp: colours_ok_def list_all_iff)
next
  fix d h d' h'
  assume s: "session s" and mem: "(Num d, h) \<in> set (futureDecorationTypes s)"
    and other: "(Num d', h') \<in> set (futureDecorationTypes s) \<and> d' \<noteq> d"
  have "distinct (map snd (futureDecorationTypes s))"
    using s by (simp add: registry_ok_one_handle_per_category(2) session_registry_ok)
  then show "h' \<noteq> h"
    using mem other distinct_snd_same_key [of "futureDecorationTypes s" "Num d" h "Num d'"]
    by auto
qed

theorem linear_category_is_the_distance_witness:
  "newDate (matched (js ''2024-08-05'') 0) = Num 1722816000000 \<and>
   0 < \<lceil>(of_int (1722816000000 - 1718409600000) :: rat) / of_int msPerDay\<rceil> \<and>
   fst ` set (updateDecorations_body 1718409600000 (js ''2024-08-05'') 0 []) = {Num 51} \<and>
   (- 3 :: int) \<le> 0 \<and>
   getOrCreateDecorationType (Num (- 3)) module_load = (pastDateDecorationType, module_load) \<and>
   (0 :: int) < 51 \<and> (50 :: int) \<le> 51 \<and> calculateColor (Num 51) = ''rgb(0, 0, 255)'' \<and>
   session (updateDecorations 0 (MakeDay 2024 6 15 * msPerDay) (Some (js ''2024-08-05'')) module_load) \<and>
   (Num 51, 1) \<in> set (futureDecorationTypes
     (updateDecorations 0 (MakeDay 2024 6 15 * msPerDay) (Some (js ''2024-08-05'')) module_load)) \<and>
   created (updateDecorations 0 (MakeDay 2024 6 15 * msPerDay) (Some (js ''2024-08-05'')) module_load) ! 1
     = (calculateColor (Num 51), ''white'')"
proof -
  let ?s = "updateDecorations 0 (MakeDay 2024 6 15 * msPerDay) (Some (js ''2024-08-05'')) module_load"
  have a: "(- 3 :: int) \<le> 0" and b: "(0 :: int) < 51" and c: "(50 :: int) \<le> 51"
    by simp_all
  have s: "session ?s"
    unfolding session_def by (rule cycles_update [OF cycles_refl])
  have "futureDecorationTypes ?s = [(Num 51, 1)]"
    by code_simp
  then have mem: "(Num 51, 1) \<in> set (futureDecorationTypes ?s)"
    by simp
  have n: "newDate (matched (js ''2024-08-05'') 0) = Num 1722816000000"
    by code_simp
  have v: "\<lceil>(of_int (1722816000000 - 1718409600000) :: rat) / of_int msPerDay\<rceil> = 51"
    by code_simp
  then have p: "0 < \<lceil>(of_int (1722816000000 - 1718409600000) :: rat) / of_int msPerDay\<rceil>"
    by simp
  note t1 = linear_category_is_the_distance
    [of "js ''2024-08-05''" 0 1722816000000 1718409600000 "[]" "- 3" module_load]
  note t2 = linear_category_is_the_distance [of "[]" 0 0 0 "[]" 51 ?s]
  have "fst ` set (updateDecorations_body 1718409600000 (js ''2024-08-05'') 0 [])
        = insert (Num \<lceil>(of_int (1722816000000 - 1718409600000) :: rat) / of_int msPerDay\<rceil>)
            (fst ` set ([] :: decorationsMap))"
    by (rule mp [OF t1 [THEN conjunct1] conjI [OF n p]])
  then have k: "fst ` set (updateDecorations_body 1718409600000 (js ''2024-08-05'') 0 []) = {Num 51}"
    unfolding v by simp
  from t1 have "- 3 \<le> (0::int) \<longrightarrow>
      getOrCreateDecorationType (Num (- 3)) module_load = (pastDateDecorationType, module_load) \<and>
      calculateColor (Num (- 3)) = ''rgb(255, 0, 0)''"
    by (elim conjE)
  with a have "getOrCreateDecorationType (Num (- 3)) module_load = (pastDateDecorationType, module_load) \<and>
      calculateColor (Num (- 3)) = ''rgb(255, 0, 0)''"
    by (rule rev_mp)
  then have x: "getOrCreateDecorationType (Num (- 3)) module_load = (pastDateDecorationType, module_load)"
    by (rule conjunct1)
  from t2 have "(50::int) \<le> 51 \<longrightarrow> calculateColor (Num 51) = ''rgb(0, 0, 255)''"
    by (elim conjE)
  with c have y: "calculateColor (Num 51) = ''rgb(0, 0, 255)''"
    by (rule rev_mp)
  from t2 have "session ?s \<longrightarrow>
      (\<forall>d h. (Num d, h) \<in> set (futureDecorationTypes ?s) \<longrightarrow>
         0 < d \<and> h \<noteq> pastDateDecorationType \<and>
         created ?s ! h = (calculateColor (Num d), ''white'') \<and>
         (\<forall>d' h'. (Num d', h') \<in> set (futureDecorationTypes ?s) \<and> d' \<noteq> d \<longrightarrow> h' \<noteq> h))"
    by (elim conjE)
  with s have "\<forall>d h. (Num d, h) \<in> set (futureDecorationTypes ?s) \<longrightarrow>
         0 < d \<and> h \<noteq> pastDateDecorationType \<and>
         created ?s ! h = (calculateColor (Num d), ''white'') \<and>
         (\<forall>d' h'. (Num d', h') \<in> set (futureDecorationTypes ?s) \<and> d' \<noteq> d \<longrightarrow> h' \<noteq> h)"
    by (rule rev_mp)
  then have "(Num 51, 1) \<in> set (futureDecorationTypes ?s) \<longrightarrow>
         0 < (51::int) \<and> 1 \<noteq> pastDateDecorationType \<and>
         created ?s ! 1 = (calculateColor (Num 51), ''white'') \<and>
         (\<forall>d' h'. (Num d', h') \<in> set (futureDecorationTypes ?s) \<and> d' \<noteq> 51 \<longrightarrow> h' \<noteq> 1)"
    by (elim allE)
  with mem have "0 < (51::int) \<and> 1 \<noteq> pastDateDecorationType \<and>
         created ?s ! 1 = (calculateColor (Num 51), ''white'') \<and>
         (\<forall>d' h'. (Num d', h') \<in> set (futureDecorationTypes ?s) \<and> d' \<noteq> 51 \<longrightarrow> h' \<noteq> 1)"
    by (rule rev_mp)
  then have z: "created ?s ! 1 = (calculateColor (Num 51), ''white'')"
    by (elim conjE)
  from n p k a x b c y s mem z show ?thesis
    by (intro conjI)
qed

section \<open>Debouncing\<close>

lemma scheduler_ok_cases:
  assumes "scheduler_ok sch"
  obtains (idle) "timers sch = []"
  | (pending) t due where "timers sch = [(t, due)]" "timeout sch = Some t"
proof (cases "timers sch")
  case Nil
  then show ?thesis by (rule idle)
next
  case (Cons p ps)
  with assms have "ps = []"
    by (simp add: scheduler_ok_def)
  moreover obtain t due where "p = (t, due)"
    by (cases p)
  ultimately show ?thesis
    using assms Cons pending by (simp add: scheduler_ok_def)
qed

text \<open>The first statement of \<^verbatim>\<open>triggerUpdateDecorations\<close> leaves no timer armed.\<close>

lemma trigger_clears:
  assumes "scheduler_ok sch"
  shows "(case timeout sch of Some t \<Rightarrow> (clearTimeout t sch)\<lparr>timeout := None\<rparr> | None \<Rightarrow> sch)
           = sch\<lparr>timers := [], timeout := None\<rparr>"
  using assms
  by (cases rule: scheduler_ok_cases) (auto simp: clearTimeout_def split: option.splits)

lemma trigger_throttled:
  "scheduler_ok sch \<Longrightarrow>
   triggerUpdateDecorations True sch =
     sch\<lparr>timers := [(nextTimer sch, clock sch + 200)], nextTimer := nextTimer sch + 1,
         timeout := Some (nextTimer sch)\<rparr>"
  by (simp add: triggerUpdateDecorations_def trigger_clears setTimeout_def)

lemma trigger_immediate:
  "scheduler_ok sch \<Longrightarrow>
   triggerUpdateDecorations False sch =
     sch\<lparr>timers := [], timeout := None, executions := executions sch @ [clock sch]\<rparr>"
  by (simp add: triggerUpdateDecorations_def trigger_clears callUpdateDecorations_def)

lemma scheduler_ok_trigger: "scheduler_ok sch \<Longrightarrow> scheduler_ok (triggerUpdateDecorations throttle sch)"
  by (cases throttle) (simp_all add: trigger_throttled trigger_immediate scheduler_ok_def)

lemma scheduler_ok_refresh: "scheduler_ok sch \<Longrightarrow> scheduler_ok (refreshCommand b sch)"
  by (simp add: refreshCommand_def callUpdateDecorations_def scheduler_ok_def)

lemma scheduler_ok_elapse: "scheduler_ok sch \<Longrightarrow> scheduler_ok (elapse dt sch)"
  by (cases rule: scheduler_ok_cases) (auto simp: elapse_def scheduler_ok_def Let_def)

lemma scheduler_ok_activate: "scheduler_ok (activate now activeEditor)"
  by (cases activeEditor)
    (simp_all add: activate_def scheduler_ok_def triggerUpdateDecorations_def
      callUpdateDecorations_def)

lemma scheduler_ok_event: "scheduler_ok sch \<Longrightarrow> scheduler_ok (handle_event e sch)"
  by (cases e) (simp_all add: scheduler_ok_trigger scheduler_ok_refresh scheduler_ok_elapse)

lemma running_scheduler_ok: "running sch \<Longrightarrow> scheduler_ok sch"
  by (induction rule: running.induct) (simp_all add: scheduler_ok_activate scheduler_ok_event)

lemma elapse_idle: "timers sch = [] \<Longrightarrow> elapse dt sch = sch\<lparr>clock := clock sch + dt\<rparr>"
  by (simp add: elapse_def)

lemma elapse_early:
  "timers sch = [(t, due)] \<Longrightarrow> clock sch + dt < due \<Longrightarrow>
   elapse dt sch = sch\<lparr>clock := clock sch + dt\<rparr>"
  by (simp add: elapse_def)

lemma elapse_due:
  "timers sch = [(t, due)] \<Longrightarrow> due \<le> clock sch + dt \<Longrightarrow>
   elapse dt sch = sch\<lparr>clock := clock sch + dt, timers := [], executions := executions sch @ [due]\<rparr>"
  by (simp add: elapse_def)

text \<open>
  Claim C6 says that no pending timer survives an immediate run. The refresh command calls
  \<^verbatim>\<open>updateDecorations\<close> directly and does not touch the timer: after a debounced request
  at time 0 and a refresh, the timer is still armed, and it fires at 200 for a second run.
\<close>

theorem refreshCommand_leaves_the_timer:
  "timers (refreshCommand True (triggerUpdateDecorations True (activate 0 False))) = [(0, 200)] \<and>
   executions (refreshCommand True (triggerUpdateDecorations True (activate 0 False))) = [0] \<and>
   executions (elapse 200 (refreshCommand True (triggerUpdateDecorations True (activate 0 False))))
     = [0, 200]"
  by (simp add: activate_def triggerUpdateDecorations_def setTimeout_def refreshCommand_def
      callUpdateDecorations_def elapse_def)

text \<open>
  Claim C6 as amended. In every state the extension can be in after \<^verbatim>\<open>activate\<close>: of two
  debounced requests less than 200 ms apart, the second cancels the timer of the first and
  arms its own, nothing runs before that timer is due, and exactly one run happens, at its
  due time, leaving no timer. An immediate request through \<^verbatim>\<open>triggerUpdateDecorations(false)\<close>
  runs \<^verbatim>\<open>updateDecorations\<close> at once, whether or not a timer is pending, and leaves no
  timer armed, so no further run follows from it.
\<close>

theorem debounce_and_immediate_trigger:
  "running sch \<Longrightarrow> d < 200 \<Longrightarrow> 200 \<le> e \<Longrightarrow>
   timers (triggerUpdateDecorations True (elapse d (triggerUpdateDecorations True sch)))
     = [(nextTimer sch + 1, clock sch + d + 200)] \<and>
   executions (triggerUpdateDecorations True (elapse d (triggerUpdateDecorations True sch)))
     = executions sch \<and>
   executions (elapse e
       (triggerUpdateDecorations True (elapse d (triggerUpdateDecorations True sch))))
     = executions sch @ [clock sch + d + 200] \<and>
   timers (elapse e
       (triggerUpdateDecorations True (elapse d (triggerUpdateDecorations True sch)))) = [] \<and>
   executions (triggerUpdateDecorations False sch) = executions sch @ [clock sch] \<and>
   timers (triggerUpdateDecorations False sch) = [] \<and>
   (\<forall>e'. executions (elapse e' (triggerUpdateDecorations False sch))
      = executions sch @ [clock sch])"
proof -
  assume run: "running sch" and early: "d < 200" and late: "200 \<le> e"
  have ok: "scheduler_ok sch"
    using run by (rule running_scheduler_ok)
  let ?s1 = "triggerUpdateDecorations True sch"
  have s1: "?s1 = sch\<lparr>timers := [(nextTimer sch, clock sch + 200)],
      nextTimer := nextTimer sch + 1, timeout := Some (nextTimer sch)\<rparr>"
    using ok by (rule trigger_throttled)
  have ok1: "scheduler_ok ?s1"
    using ok by (rule scheduler_ok_trigger)
  have e1: "elapse d ?s1 = sch\<lparr>timers := [(nextTimer sch, clock sch + 200)],
      nextTimer := nextTimer sch + 1, timeout := Some (nextTimer sch), clock := clock sch + d\<rparr>"
    using early by (simp add: s1 elapse_def)
  have ok2: "scheduler_ok (elapse d ?s1)"
    using ok1 by (rule scheduler_ok_elapse)
  let ?s2 = "triggerUpdateDecorations True (elapse d ?s1)"
  have "?s2 = (elapse d ?s1)\<lparr>timers := [(nextTimer (elapse d ?s1), clock (elapse d ?s1) + 200)],
      nextTimer := nextTimer (elapse d ?s1) + 1, timeout := Some (nextTimer (elapse d ?s1))\<rparr>"
    using ok2 by (rule trigger_throttled)
  also have "\<dots> = sch\<lparr>timers := [(nextTimer sch + 1, clock sch + d + 200)],
      nextTimer := nextTimer sch + 2, timeout := Some (nextTimer sch + 1),
      clock := clock sch + d\<rparr>"
    by (simp add: e1)
  finally have s2: "?s2 = sch\<lparr>timers := [(nextTimer sch + 1, clock sch + d + 200)],
      nextTimer := nextTimer sch + 2, timeout := Some (nextTimer sch + 1),
      clock := clock sch + d\<rparr>" .
  have 1: "timers ?s2 = [(nextTimer sch + 1, clock sch + d + 200)]"
    by (simp add: s2)
  have 2: "executions ?s2 = executions sch"
    by (simp add: s2)
  have e2: "elapse e ?s2 = ?s2\<lparr>clock := clock ?s2 + e, timers := [],
      executions := executions ?s2 @ [clock sch + d + 200]\<rparr>"
    using late by (intro elapse_due) (simp_all add: s2)
  have 3: "executions (elapse e ?s2) = executions sch @ [clock sch + d + 200]"
    unfolding e2 by (simp add: s2)
  have 4: "timers (elapse e ?s2) = []"
    unfolding e2 by simp
  have s': "triggerUpdateDecorations False sch =
      sch\<lparr>timers := [], timeout := None, executions := executions sch @ [clock sch]\<rparr>"
    using ok by (rule trigger_immediate)
  have 5: "executions (triggerUpdateDecorations False sch) = executions sch @ [clock sch]"
    by (simp add: s')
  have 6: "timers (triggerUpdateDecorations False sch) = []"
    by (simp add: s')
  have 7: "\<forall>e'. executions (elapse e' (triggerUpdateDecorations False sch))
      = executions sch @ [clock sch]"
    by (simp add: s' elapse_def)
  from 1 2 3 4 5 6 7 show ?thesis
    by (intro conjI)
qed

theorem debounce_and_immediate_trigger_witness:
  "running (activate 0 True) \<and> (150::nat) < 200 \<and> (200::nat) \<le> 200 \<and>
   executions (elapse 200
       (triggerUpdateDecorations True (elapse 150 (triggerUpdateDecorations True (activate 0 True)))))
     = [0, 350] \<and>
   running (handle_event (ChangeTextDocument True) (activate 0 True)) \<and>
   timers (handle_event (ChangeTextDocument True) (activate 0 True)) = [(0, 200)] \<and>
   timers (triggerUpdateDecorations False (handle_event (ChangeTextDocument True) (activate 0 True)))
     = []"
proof -
  let ?pending = "handle_event (ChangeTextDocument True) (activate 0 True)"
  have r: "running (activate 0 True)"
    by (rule running_activate)
  have r': "running ?pending"
    using r by (rule running_event)
  have c: "clock (activate 0 True) = 0" "executions (activate 0 True) = [0]"
    by (simp_all add: activate_def triggerUpdateDecorations_def callUpdateDecorations_def)
  have d: "(150::nat) < 200" and e: "(200::nat) \<le> 200"
    by simp_all
  have p: "timers ?pending = [(0, 200)]"
    by (simp add: activate_def triggerUpdateDecorations_def callUpdateDecorations_def
        setTimeout_def)
  note t = debounce_and_immediate_trigger [OF r d e]
  note t' = debounce_and_immediate_trigger [OF r' d e]
  from t have "executions (elapse 200
       (triggerUpdateDecorations True (elapse 150 (triggerUpdateDecorations True (activate 0 True)))))
     = executions (activate 0 True) @ [clock (activate 0 True) + 150 + 200]"
    by (elim conjE)
  then have x: "executions (elapse 200
       (triggerUpdateDecorations True (elapse 150 (triggerUpdateDecorations True (activate 0 True)))))
     = [0, 350]"
    by (simp add: c)
  from t' have y: "timers (triggerUpdateDecorations False ?pending) = []"
    by (elim conjE)
  from r d e x r' p y show ?thesis
    by (intro conjI)
qed

end
